theory Spec2Isabelle
  imports Complex_Main "HOL-Library.Log_Nat"
begin

section \<open>Values of the host language\<close>

text \<open>
  The counters of the limit state are JavaScript numbers, that is IEEE 754 double
  precision values. Every finite double is a rational number, so a finite number is
  modelled by its value (\<open>Num\<close>); the two zeros are not told apart, which no operation
  used here can observe. \<open>Infinity\<close>, \<open>-Infinity\<close> and \<open>NaN\<close> are the special values.
  Only three operations are applied to numbers by \<open>src/index.ts\<close>: the truthiness test
  of \<open>x || 0\<close>, the comparison \<open>x <= 0\<close> and the update \<open>x -= 1\<close>. The first two are
  exact; the subtraction rounds its exact result to the nearest double. \<open>Num\<close> can
  carry any rational; the theorems hold for all of them, the doubles among them.
\<close>

datatype number = Num rat | Infinity | NegInfinity | NaN

text \<open>Rounding to the nearest integer, a tie going to the even one.\<close>

definition round_half_even :: "rat \<Rightarrow> int" where
  "round_half_even q =
     (let f = \<lfloor>q\<rfloor>; d = q - of_int f
      in if d < 1 / 2 then f else if 1 / 2 < d then f + 1 else if even f then f else f + 1)"

text \<open>
  The binary exponent of a positive rational \<open>q\<close>, the integer \<open>e\<close> with
  \<open>2^e \<le> q < 2^(e+1)\<close>, from the bit lengths of numerator and denominator.
\<close>

definition ilog2 :: "rat \<Rightarrow> int" where
  "ilog2 q =
     (case quotient_of q of
        (a, b) \<Rightarrow> (let d = bitlen a - bitlen b in if 2 powi d \<le> q then d else d - 1))"

text \<open>
  The rounding of an exact result to a double (round to nearest, ties to even): 53
  significant bits, the exponent of a normal number at least \<open>-1022\<close> (below it the
  spacing of the subnormal numbers, \<open>2^-1074\<close>, is kept), and overflow to an infinity
  when the rounded magnitude reaches \<open>2^1024\<close>.
\<close>

definition double_overflow :: rat where
  "double_overflow = 2 ^ 1024"

definition to_double :: "rat \<Rightarrow> number" where
  "to_double q =
     (if q = 0 then Num 0
      else
        (let e = max (ilog2 \<bar>q\<bar>) (- 1022);
             u = 2 powi (e - 52);
             r = of_int (round_half_even (\<bar>q\<bar> / u)) * u
         in if double_overflow \<le> r then (if 0 < q then Infinity else NegInfinity)
            else Num (if 0 < q then r else - r)))"

fun truthy :: "number \<Rightarrow> bool" where
  "truthy (Num n) = (n \<noteq> 0)"
| "truthy Infinity = True"
| "truthy NegInfinity = True"
| "truthy NaN = False"

text \<open>\<open>x <= y\<close>: every comparison with \<open>NaN\<close> is false.\<close>

fun number_le :: "number \<Rightarrow> number \<Rightarrow> bool" where
  "number_le NaN y = False"
| "number_le x NaN = False"
| "number_le NegInfinity y = True"
| "number_le x Infinity = True"
| "number_le (Num a) (Num b) = (a \<le> b)"
| "number_le Infinity y = False"
| "number_le x NegInfinity = False"

text \<open>\<open>x - 1\<close>: the exact difference, rounded to a double.\<close>

fun minus_one :: "number \<Rightarrow> number" where
  "minus_one (Num n) = to_double (n - 1)"
| "minus_one Infinity = Infinity"
| "minus_one NegInfinity = NegInfinity"
| "minus_one NaN = NaN"

text \<open>\<open>x || 0\<close> for a property read \<open>x\<close>: \<open>undefined\<close> (no entry), \<open>0\<close> and \<open>NaN\<close> are falsy.\<close>

fun or_zero :: "number option \<Rightarrow> number" where
  "or_zero None = Num 0"
| "or_zero (Some v) = (if truthy v then v else Num 0)"

text \<open>The numeric value of a property read: \<open>undefined\<close> converts to \<open>NaN\<close>.\<close>

fun to_number :: "number option \<Rightarrow> number" where
  "to_number None = NaN"
| "to_number (Some v) = v"

text \<open>
  Truthiness of an optional object or function (\<open>undefined\<close> is falsy, every object is
  truthy) and of an optional string (\<open>undefined\<close> and the empty string are falsy).
\<close>

fun truthy_object :: "'a option \<Rightarrow> bool" where
  "truthy_object None = False"
| "truthy_object (Some x) = True"

fun truthy_string :: "string option \<Rightarrow> bool" where
  "truthy_string None = False"
| "truthy_string (Some s) = (s \<noteq> [])"

section \<open>Data model\<close>

text \<open>
  \<open>Field\<close> and \<open>File\<close> are declared in \<open>./interfaces\<close>; \<open>src/index.ts\<close> reads
  \<open>field.name\<close>, \<open>field.maxCount\<close> (a number or \<open>undefined\<close>, line 52) and
  \<open>file.fieldname\<close>. The other members of \<open>File\<close> are the metadata of a file part.
\<close>

record Field =
  name :: string
  maxCount :: "number option"

record File =
  fieldname :: string
  originalname :: string
  encoding :: string
  mimetype :: string

text \<open>
  Errors are values. \<open>MulterError code field\<close> is \<open>new MulterError(code, field)\<close>,
  \<open>TypeError msg\<close> is \<open>new TypeError(msg)\<close>, and \<open>OtherError\<close> stands for any error a
  caller's filter may hand to its callback.
\<close>

datatype error = MulterError string string | TypeError string | OtherError string

text \<open>
  The callback of a file filter, \<open>cb(err, accept)\<close>, and a file filter
  \<open>(req, file, cb)\<close>. A filter answers by calling \<open>cb\<close>, so it is modelled in
  continuation-passing style: \<open>'a\<close> is whatever the rest of the request computes.
  \<open>cb(null, true)\<close> is \<open>cb None (Some True)\<close>, and \<open>cb(err)\<close> is \<open>cb (Some err) None\<close>.
\<close>

type_synonym 'a FileFilterCallback = "error option \<Rightarrow> bool option \<Rightarrow> 'a"

type_synonym ('req, 'a) FileFilter = "'req \<Rightarrow> File \<Rightarrow> 'a FileFilterCallback \<Rightarrow> 'a"

datatype Strategy = VALUE | ARRAY | OBJECT | NONE

text \<open>The limit state \<open>filesLeft\<close>: an object without prototype, from field name to count.\<close>

type_synonym filesLeft = "string \<rightharpoonup> number"

text \<open>
  Lines 49 to 57: the fresh limit state of one invocation of the setup closure. The
  \<open>forEach\<close> assigns in the order of the list, so a later declaration of a name
  overwrites an earlier one.
\<close>

definition makeFilesLeft :: "Field list \<Rightarrow> filesLeft" where
  "makeFilesLeft flds =
     foldl (\<lambda>filesLeft field.
              (case maxCount field of
                 Some n \<Rightarrow> filesLeft(name field \<mapsto> n)
               | None \<Rightarrow> filesLeft(name field \<mapsto> Infinity)))
           Map.empty flds"

text \<open>
  \<open>wrappedFileFilter\<close>, lines 59 to 70, with the captured variables \<open>fileFilter\<close> and
  \<open>filesLeft\<close> as arguments; the new \<open>filesLeft\<close> is returned with the answer.
\<close>

definition wrappedFileFilter ::
  "('req, 'a) FileFilter \<Rightarrow> filesLeft \<Rightarrow> 'req \<Rightarrow> File \<Rightarrow> 'a FileFilterCallback \<Rightarrow> filesLeft \<times> 'a"
where
  "wrappedFileFilter fileFilter filesLeft req file cb =
     (if number_le (or_zero (filesLeft (fieldname file))) (Num 0)
      then (filesLeft, cb (Some (MulterError ''LIMIT_UNEXPECTED_FILE'' (fieldname file))) None)
      else (filesLeft(fieldname file \<mapsto> minus_one (to_number (filesLeft (fieldname file)))),
            fileFilter req file cb))"

text \<open>
  Modelled from the spec: the storage engines. \<open>./storage/disk\<close> and \<open>./storage/memory\<close>
  are not among the sources; an engine is represented by the call that makes it:
  \<open>DiskStorage d\<close> is \<open>diskStorage({ destination: d })\<close>, the disk engine targeting
  \<open>d\<close>, \<open>MemoryStorage\<close> is \<open>memoryStorage()\<close>, the in-memory engine, and
  \<open>CustomStorage e\<close> is any other engine object.
\<close>

datatype 'e StorageEngine = DiskStorage string | MemoryStorage | CustomStorage 'e

record ('req, 'a, 'e, 'l) Options =
  storage :: "'e StorageEngine option"
  dest :: "string option"
  limits :: "'l option"
  preservePath :: "bool option"
  fileFilter :: "('req, 'a) FileFilter option"

text \<open>
  The instance fields of class \<open>Multer\<close> that the constructor takes from the options.
  The fifth field, \<open>contentParser\<close>, is the imported plugin, the same for every instance,
  and is used by none of the methods.
\<close>

record ('req, 'a, 'e, 'l) Multer =
  storage :: "'e StorageEngine"
  limits :: "'l option"
  preservePath :: "bool option"
  fileFilter :: "('req, 'a) FileFilter"

text \<open>
  The object a setup closure returns. Its \<open>fileFilter\<close> is a closure over mutable
  state; the model passes that state explicitly: \<open>captured\<close> is the state the closure
  starts with, and \<open>fileFilter\<close> takes the current state and returns the new one.
\<close>

record ('req, 'a, 'e, 'l, 's) SetupResult =
  limits :: "'l option"
  preservePath :: "bool option"
  storage :: "'e StorageEngine"
  fileFilter :: "'s \<Rightarrow> 'req \<Rightarrow> File \<Rightarrow> 'a FileFilterCallback \<Rightarrow> 's \<times> 'a"
  fileStrategy :: Strategy
  captured :: 's

section \<open>The class Multer\<close>

text \<open>\<open>allowAll\<close>, lines 20 to 22.\<close>

definition allowAll :: "('req, 'a) FileFilter" where
  "allowAll req file cb = cb None (Some True)"

text \<open>The constructor, lines 31 to 44.\<close>

definition new_Multer :: "('req, 'a, 'e, 'l) Options \<Rightarrow> ('req, 'a, 'e, 'l) Multer" where
  "new_Multer options =
     \<lparr> Multer.storage =
         (if truthy_object (Options.storage options) then the (Options.storage options)
          else if truthy_string (dest options) then DiskStorage (the (dest options))
          else MemoryStorage),
       Multer.limits = Options.limits options,
       Multer.preservePath = Options.preservePath options,
       Multer.fileFilter =
         (if truthy_object (Options.fileFilter options) then the (Options.fileFilter options)
          else allowAll) \<rparr>"

text \<open>
  The closure \<open>setup\<close> of \<open>_makeBeforeHandler\<close>, lines 47 to 79, with the variables
  it captures (\<open>this\<close>, \<open>fields\<close>, \<open>fileStrategy\<close>) as arguments.
\<close>

definition setup_closure ::
  "('req, 'a, 'e, 'l) Multer \<Rightarrow> Field list \<Rightarrow> Strategy \<Rightarrow> unit
     \<Rightarrow> ('req, 'a, 'e, 'l, filesLeft) SetupResult"
where
  "setup_closure this flds strategy = (\<lambda>_.
     \<lparr> SetupResult.limits = Multer.limits this,
       SetupResult.preservePath = Multer.preservePath this,
       SetupResult.storage = Multer.storage this,
       SetupResult.fileFilter = wrappedFileFilter (Multer.fileFilter this),
       fileStrategy = strategy,
       captured = makeFilesLeft flds \<rparr>)"

text \<open>
  \<open>_makeBeforeHandler\<close>, lines 46 to 82. \<open>./lib/make-beforehandler\<close> is not among the
  sources, so the imported \<open>makeBeforeHandler\<close> is a parameter of every entry point.
\<close>

definition Multer_makeBeforeHandler ::
  "((unit \<Rightarrow> ('req, 'a, 'e, 'l, filesLeft) SetupResult) \<Rightarrow> 'm)
     \<Rightarrow> ('req, 'a, 'e, 'l) Multer \<Rightarrow> Field list \<Rightarrow> Strategy \<Rightarrow> 'm"
where
  "Multer_makeBeforeHandler makeBeforeHandler this flds strategy =
     makeBeforeHandler (setup_closure this flds strategy)"

text \<open>The entry points, lines 84 to 113.\<close>

definition single ::
  "((unit \<Rightarrow> ('req, 'a, 'e, 'l, filesLeft) SetupResult) \<Rightarrow> 'm)
     \<Rightarrow> ('req, 'a, 'e, 'l) Multer \<Rightarrow> string \<Rightarrow> 'm"
where
  "single makeBeforeHandler this fieldName =
     Multer_makeBeforeHandler makeBeforeHandler this
       [\<lparr> name = fieldName, maxCount = Some (Num 1) \<rparr>] VALUE"

definition array ::
  "((unit \<Rightarrow> ('req, 'a, 'e, 'l, filesLeft) SetupResult) \<Rightarrow> 'm)
     \<Rightarrow> ('req, 'a, 'e, 'l) Multer \<Rightarrow> string \<Rightarrow> number option \<Rightarrow> 'm"
where
  "array makeBeforeHandler this fieldName maxCount' =
     Multer_makeBeforeHandler makeBeforeHandler this
       [\<lparr> name = fieldName, maxCount = maxCount' \<rparr>] ARRAY"

definition fields' ::
  "((unit \<Rightarrow> ('req, 'a, 'e, 'l, filesLeft) SetupResult) \<Rightarrow> 'm)
     \<Rightarrow> ('req, 'a, 'e, 'l) Multer \<Rightarrow> Field list \<Rightarrow> 'm"
where
  "fields' makeBeforeHandler this flds =
     Multer_makeBeforeHandler makeBeforeHandler this flds OBJECT"

definition none ::
  "((unit \<Rightarrow> ('req, 'a, 'e, 'l, filesLeft) SetupResult) \<Rightarrow> 'm)
     \<Rightarrow> ('req, 'a, 'e, 'l) Multer \<Rightarrow> 'm"
where
  "none makeBeforeHandler this =
     Multer_makeBeforeHandler makeBeforeHandler this [] NONE"

text \<open>
  The setup closure of \<open>any\<close>, lines 104 to 110: the caller's filter itself, which
  captures no limit state (the state of this closure is \<open>unit\<close>).
\<close>

definition any_setup ::
  "('req, 'a, 'e, 'l) Multer \<Rightarrow> unit \<Rightarrow> ('req, 'a, 'e, 'l, unit) SetupResult"
where
  "any_setup this = (\<lambda>_.
     \<lparr> SetupResult.limits = Multer.limits this,
       SetupResult.preservePath = Multer.preservePath this,
       SetupResult.storage = Multer.storage this,
       SetupResult.fileFilter = (\<lambda>s req file cb. (s, Multer.fileFilter this req file cb)),
       fileStrategy = ARRAY,
       captured = () \<rparr>)"

definition any ::
  "((unit \<Rightarrow> ('req, 'a, 'e, 'l, unit) SetupResult) \<Rightarrow> 'm)
     \<Rightarrow> ('req, 'a, 'e, 'l) Multer \<Rightarrow> 'm"
where
  "any makeBeforeHandler this = makeBeforeHandler (any_setup this)"

section \<open>The factory\<close>

text \<open>
  The argument of \<open>multer\<close> is any value of the host language. An object is
  represented by the option properties the constructor reads from it.
\<close>

datatype ('req, 'a, 'e, 'l) js_value =
    Undefined
  | Null
  | Boolean bool
  | Number number
  | String string
  | Symbol string
  | BigInt int
  | Function string
  | Object (properties: "('req, 'a, 'e, 'l) Options")

fun typeof :: "('req, 'a, 'e, 'l) js_value \<Rightarrow> string" where
  "typeof Undefined = ''undefined''"
| "typeof Null = ''object''"
| "typeof (Boolean b) = ''boolean''"
| "typeof (Number n) = ''number''"
| "typeof (String s) = ''string''"
| "typeof (Symbol s) = ''symbol''"
| "typeof (BigInt n) = ''bigint''"
| "typeof (Function f) = ''function''"
| "typeof (Object ps) = ''object''"

text \<open>The options object \<open>{}\<close>.\<close>

definition emptyOptions :: "('req, 'a, 'e, 'l) Options" where
  "emptyOptions =
     \<lparr> Options.storage = None, dest = None, Options.limits = None,
       Options.preservePath = None, Options.fileFilter = None \<rparr>"

text \<open>The tests \<open>x === undefined\<close> and \<open>x === null\<close>.\<close>

fun is_undefined :: "('req, 'a, 'e, 'l) js_value \<Rightarrow> bool" where
  "is_undefined Undefined = True"
| "is_undefined x = False"

fun is_null :: "('req, 'a, 'e, 'l) js_value \<Rightarrow> bool" where
  "is_null Null = True"
| "is_null x = False"

text \<open>\<open>multer\<close>, lines 116 to 126; the \<open>throw\<close> is the left summand.\<close>

definition multer :: "('req, 'a, 'e, 'l) js_value \<Rightarrow> error + ('req, 'a, 'e, 'l) Multer" where
  "multer options =
     (if is_undefined options then Inr (new_Multer emptyOptions)
      else if typeof options = ''object'' \<and> \<not> is_null options
        then Inr (new_Multer (properties options))
      else Inl (TypeError ''Expected object for argument options''))"

section \<open>A request's file parts\<close>

text \<open>
  One call of a file filter: the request, the file and the callback that the caller of
  the filter passes.
\<close>

record ('req, 'a) call =
  call_req :: 'req
  call_file :: File
  call_cb :: "'a FileFilterCallback"

text \<open>
  A request presents its file parts to the filter of its setup result one after the
  other. \<open>process\<close> is that sequence of calls: it threads the closure's state through
  them and collects the answers in order.
\<close>

fun process ::
  "('s \<Rightarrow> 'req \<Rightarrow> File \<Rightarrow> 'a FileFilterCallback \<Rightarrow> 's \<times> 'a) \<Rightarrow> 's \<Rightarrow> ('req, 'a) call list
     \<Rightarrow> 's \<times> 'a list"
where
  "process f s [] = (s, [])"
| "process f s (c # cs) =
     (case f s (call_req c) (call_file c) (call_cb c) of
        (s', out) \<Rightarrow> (case process f s' cs of (s'', outs) \<Rightarrow> (s'', out # outs)))"

text \<open>The number of file parts among \<open>cs\<close> that name field \<open>n\<close>.\<close>

definition naming :: "string \<Rightarrow> ('req, 'a) call list \<Rightarrow> nat" where
  "naming n cs = length (filter (\<lambda>c. fieldname (call_file c) = n) cs)"

text \<open>
  Modelled from the spec: how a request is handled. The middleware is made by
  \<open>makeBeforeHandler\<close>, which is not among the sources; by sections 4.1, 4.5 and 5 of
  the specification it invokes the setup closure once for each request and sends every
  file part of that request, in order, through the \<open>fileFilter\<close> that invocation
  returned. \<open>request\<close> gives the answers of those calls.
\<close>

definition request ::
  "(unit \<Rightarrow> ('req, 'a, 'e, 'l, 's) SetupResult) \<Rightarrow> ('req, 'a) call list \<Rightarrow> 'a list"
where
  "request setup_fn cs =
     snd (process (SetupResult.fileFilter (setup_fn ())) (captured (setup_fn ())) cs)"

text \<open>
  Modelled from the spec: the kind of an error. \<open>./lib/multer-error\<close> is not among the
  sources; by section 7 of the specification the errors of the taxonomy carry their kind
  and a field name. A \<open>MulterError\<close> is made with its kind, the code, as first argument
  (line 65); a \<open>TypeError\<close> and the errors of a caller's filter are plain errors with no
  code.
\<close>

fun error_code :: "error \<Rightarrow> string option" where
  "error_code (MulterError c f) = Some c"
| "error_code (TypeError m) = None"
| "error_code (OtherError m) = None"

text \<open>
  Modelled from the spec: what the Ingestion Coordinator does with the answer of the
  file filter. \<open>./lib/make-beforehandler\<close>, which passes the callback, is not among the
  sources; by sections 4.2 and 4.5 of the specification an error aborts the request, an
  acceptance hands the file to the storage engine, and a refusal skips the file without
  an error.
\<close>

datatype ingest = Abort error | Store File | Skip

definition afterFilter :: "File \<Rightarrow> ingest FileFilterCallback" where
  "afterFilter file err accept =
     (case err of
        Some e \<Rightarrow> Abort e
      | None \<Rightarrow> (if accept = Some True then Store file else Skip))"

section \<open>The limit state as an object on the heap\<close>

text \<open>
  \<open>filesLeft\<close> is an object: the closure \<open>wrappedFileFilter\<close> holds a reference to it
  and updates it in place. To say which calls share a limit state, the objects are put on
  a heap, a map from references to objects with the next unused reference.
\<close>

record heap =
  objects :: "nat \<rightharpoonup> filesLeft"
  next_ref :: nat

text \<open>\<open>Object.create(null)\<close>, line 49: a new empty object and the reference to it.\<close>

definition Object_create_null :: "heap \<Rightarrow> nat \<times> heap" where
  "Object_create_null h =
     (next_ref h,
      \<lparr> objects = (objects h)(next_ref h \<mapsto> Map.empty), next_ref = Suc (next_ref h) \<rparr>)"

text \<open>
  The object behind a reference. A closure only holds references that
  \<open>Object_create_null\<close> has returned, so the second case does not occur.
\<close>

definition deref :: "heap \<Rightarrow> nat \<Rightarrow> filesLeft" where
  "deref h r = (case objects h r of Some obj \<Rightarrow> obj | None \<Rightarrow> Map.empty)"

text \<open>
  \<open>wrappedFileFilter\<close>, lines 59 to 70, as the closure that holds the reference \<open>r\<close>: it
  reads and writes the object behind \<open>r\<close> and no other.
\<close>

definition wrappedFileFilter_at ::
  "('req, 'a) FileFilter \<Rightarrow> nat \<Rightarrow> heap \<Rightarrow> 'req \<Rightarrow> File \<Rightarrow> 'a FileFilterCallback \<Rightarrow> heap \<times> 'a"
where
  "wrappedFileFilter_at fileFilter' r h req file cb =
     (case wrappedFileFilter fileFilter' (deref h r) req file cb of
        (filesLeft, out) \<Rightarrow> (h\<lparr> objects := (objects h)(r \<mapsto> filesLeft) \<rparr>, out))"

text \<open>
  One invocation of the closure \<open>setup\<close> of \<open>_makeBeforeHandler\<close>, lines 47 to 79, on a
  heap. Line 49 makes the object, lines 51 to 57 fill it (\<open>makeFilesLeft\<close> is what they
  leave in an empty object), and the returned \<open>fileFilter\<close> is the closure that holds
  the reference to this object. The state the closures work on is the heap, so
  \<open>captured\<close> is the heap the invocation leaves.
\<close>

definition invoke_setup ::
  "('req, 'a, 'e, 'l) Multer \<Rightarrow> Field list \<Rightarrow> Strategy \<Rightarrow> heap
     \<Rightarrow> ('req, 'a, 'e, 'l, heap) SetupResult"
where
  "invoke_setup this flds strategy h =
     (case Object_create_null h of
        (filesLeft, h') \<Rightarrow>
          \<lparr> SetupResult.limits = Multer.limits this,
            SetupResult.preservePath = Multer.preservePath this,
            SetupResult.storage = Multer.storage this,
            SetupResult.fileFilter = wrappedFileFilter_at (Multer.fileFilter this) filesLeft,
            fileStrategy = strategy,
            captured = h'\<lparr> objects := (objects h')(filesLeft \<mapsto> makeFilesLeft flds) \<rparr> \<rparr>)"

text \<open>
  Modelled from the spec: several requests in flight on one middleware
  (\<open>./lib/make-beforehandler\<close> is not among the sources). By sections 4.5 and 5 of the
  specification the middleware invokes the setup closure when a request starts and sends
  each file part of a request through the \<open>fileFilter\<close> that the invocation for this
  request returned; requests are handled concurrently, so the calls of the filters, each
  of which runs to its end, interleave in any order. The server keeps the heap and the
  filters of the requests in the order in which they started. \<open>NewRequest\<close> starts a
  request, \<open>FilePart r c\<close> is the call \<open>c\<close> for the request that started as number \<open>r\<close>
  (from 0); a part for a request that has not started is dropped.
\<close>

record ('req, 'a) server =
  heap_of :: heap
  filters :: "(heap \<Rightarrow> 'req \<Rightarrow> File \<Rightarrow> 'a FileFilterCallback \<Rightarrow> heap \<times> 'a) list"

datatype ('req, 'a) event = NewRequest | FilePart nat "('req, 'a) call"

fun serve ::
  "(heap \<Rightarrow> ('req, 'a, 'e, 'l, heap) SetupResult) \<Rightarrow> ('req, 'a) server
     \<Rightarrow> ('req, 'a) event list \<Rightarrow> ('req, 'a) server \<times> (nat \<times> 'a) list"
where
  "serve setup_fn sv [] = (sv, [])"
| "serve setup_fn sv (NewRequest # evs) =
     serve setup_fn
       \<lparr> heap_of = captured (setup_fn (heap_of sv)),
         filters = filters sv @ [SetupResult.fileFilter (setup_fn (heap_of sv))] \<rparr> evs"
| "serve setup_fn sv (FilePart r c # evs) =
     (if r < length (filters sv)
      then
        (case (filters sv ! r) (heap_of sv) (call_req c) (call_file c) (call_cb c) of
           (h, out) \<Rightarrow>
             (case serve setup_fn (sv\<lparr> heap_of := h \<rparr>) evs of
                (sv', outs) \<Rightarrow> (sv', (r, out) # outs)))
      else serve setup_fn sv evs)"

text \<open>The server of a middleware that has handled no request yet.\<close>

definition new_server :: "('req, 'a) server" where
  "new_server = \<lparr> heap_of = \<lparr> objects = Map.empty, next_ref = 0 \<rparr>, filters = [] \<rparr>"

text \<open>The file parts of request \<open>r\<close> among the events, and the answers given to it.\<close>

fun parts_of :: "nat \<Rightarrow> ('req, 'a) event list \<Rightarrow> ('req, 'a) call list" where
  "parts_of r [] = []"
| "parts_of r (NewRequest # evs) = parts_of r evs"
| "parts_of r (FilePart r' c # evs) = (if r' = r then c # parts_of r evs else parts_of r evs)"

definition answers_of :: "nat \<Rightarrow> (nat \<times> 'a) list \<Rightarrow> 'a list" where
  "answers_of r outs = map snd (filter (\<lambda>p. fst p = r) outs)"

section \<open>Rounding to a double\<close>

text \<open>
  An integer of magnitude at most \<open>2^53\<close> is a double, so subtracting 1 from a positive
  integer count up to \<open>2^53\<close> is exact. Above \<open>2^53\<close> the doubles are integers that are
  further than 1 apart, and the subtraction rounds: the result is again a non-negative
  integer (or overflows), but it need not be smaller.
\<close>

lemma round_half_even_of_int [simp]: "round_half_even (of_int i) = i"
  by (simp add: round_half_even_def)

lemma round_half_even_nonneg: "0 \<le> q \<Longrightarrow> 0 \<le> round_half_even q"
  by (auto simp: round_half_even_def Let_def)

lemma bitlen_one: "bitlen 1 = 1"
  by (simp add: bitlen_alt_def)

lemma ilog2_of_int: "0 < z \<Longrightarrow> ilog2 (of_int z) = bitlen z - 1"
proof -
  assume z: "0 < z"
  have b: "1 \<le> bitlen z" using z bitlen_eq_zero_iff [of z] bitlen_nonneg [of z] by linarith
  have "(2::int) ^ nat (bitlen z - 1) \<le> z" using bitlen_bounds [OF z] by simp
  then have "(of_int ((2::int) ^ nat (bitlen z - 1)) :: rat) \<le> of_int z"
    by (simp only: of_int_le_iff)
  then have "(2::rat) powi (bitlen z - 1) \<le> of_int z"
    using b by (simp add: power_int_def)
  then show ?thesis
    by (simp add: ilog2_def quotient_of_int Let_def bitlen_one)
qed

lemma to_double_pos:
  "0 < q \<Longrightarrow>
     to_double q =
       (if double_overflow
             \<le> of_int (round_half_even (q / 2 powi (max (ilog2 q) (- 1022) - 52)))
                 * 2 powi (max (ilog2 q) (- 1022) - 52)
        then Infinity
        else Num (of_int (round_half_even (q / 2 powi (max (ilog2 q) (- 1022) - 52)))
                   * 2 powi (max (ilog2 q) (- 1022) - 52)))"
  by (simp add: to_double_def Let_def)

lemma below_overflow: "z \<le> 2 ^ 53 \<Longrightarrow> \<not> double_overflow \<le> of_int z"
proof -
  assume "z \<le> 2 ^ 53"
  then have "(of_int z :: rat) \<le> of_int (2 ^ 53)" by (simp only: of_int_le_iff)
  also have "\<dots> = 2 ^ 53" by (simp only: of_int_power of_int_numeral)
  also have "\<dots> < (2::rat) ^ 1024" by (rule power_strict_increasing) simp_all
  finally show ?thesis by (simp only: double_overflow_def not_le)
qed

lemma to_double_of_int:
  assumes "0 \<le> z" "z \<le> 2 ^ 53"
  shows "to_double (of_int z) = Num (of_int z)"
proof (cases "z = 0")
  case True
  then show ?thesis by (simp add: to_double_def)
next
  case False
  with assms have z: "0 < z" by simp
  let ?e = "bitlen z - 1"
  have b1: "1 \<le> bitlen z" using z bitlen_eq_zero_iff [of z] bitlen_nonneg [of z] by linarith
  have lo: "(2::int) ^ nat ?e \<le> z" using bitlen_bounds [OF z] by simp
  have "(2::int) ^ nat ?e \<le> 2 ^ 53" using lo assms(2) by linarith
  then have "nat ?e \<le> 53" by (rule power_le_imp_le_exp [rotated]) simp
  then have e53: "?e \<le> 53" by simp
  have e: "max (ilog2 (of_int z)) (- 1022) = ?e"
    using z b1 by (simp add: ilog2_of_int)
  have "\<exists>i. (of_int z :: rat) / 2 powi (?e - 52) = of_int i"
  proof (cases "?e \<le> 52")
    case True
    then have k: "?e - 52 = - int (nat (52 - ?e))" by simp
    have "(2::rat) powi (?e - 52) = 1 / 2 ^ nat (52 - ?e)"
      by (subst k) (simp only: power_int_minus_divide power_int_of_nat)
    then have "(of_int z :: rat) / 2 powi (?e - 52) = of_int (z * 2 ^ nat (52 - ?e))"
      by (simp only: divide_divide_eq_right mult_1 of_int_mult of_int_power of_int_numeral)
    then show ?thesis ..
  next
    case False
    with e53 have e': "?e = 53" by simp
    then have "2 ^ 53 \<le> z" using lo by simp
    with assms(2) have "z = 2 ^ 53" by simp
    then have "(of_int z :: rat) / 2 powi (?e - 52) = of_int (2 ^ 52)"
      using e' by simp
    then show ?thesis ..
  qed
  then obtain i where i: "(of_int z :: rat) / 2 powi (?e - 52) = of_int i" ..
  have u0: "(2::rat) powi (?e - 52) \<noteq> 0" by simp
  have r: "of_int (round_half_even (of_int z / 2 powi (?e - 52))) * 2 powi (?e - 52)
      = (of_int z :: rat)"
    unfolding i round_half_even_of_int using i u0 by (simp add: field_simps)
  have pos: "(0::rat) < of_int z" using z by simp
  show ?thesis
    unfolding to_double_pos [OF pos] e r using below_overflow [OF assms(2)] by simp
qed

lemma to_double_of_nonneg_int:
  assumes "0 \<le> z"
  shows "to_double (of_int z) = Infinity \<or> (\<exists>i\<ge>0. to_double (of_int z) = Num (of_int i))"
proof (cases "z \<le> 2 ^ 53")
  case True
  with assms to_double_of_int [of z] show ?thesis by blast
next
  case False
  then have big: "2 ^ 53 < z" by simp
  then have z: "0 < z" by (metis less_trans zero_less_numeral zero_less_power)
  let ?e = "bitlen z - 1"
  have "z < 2 ^ nat (bitlen z)" using bitlen_bounds [OF z] by simp
  with big have "(2::int) ^ 53 < 2 ^ nat (bitlen z)" by linarith
  then have "53 < nat (bitlen z)" by (rule power_less_imp_less_exp [rotated]) simp
  then have e53: "53 \<le> ?e" by simp
  have e: "max (ilog2 (of_int z)) (- 1022) = ?e"
    using z e53 by (simp add: ilog2_of_int)
  have u: "(2::rat) powi (?e - 52) = of_int (2 ^ nat (?e - 52))"
    using e53 by (simp only: power_int_nonneg_exp of_int_power of_int_numeral)
  let ?m = "round_half_even (of_int z / 2 powi (?e - 52))"
  have "0 \<le> (of_int z :: rat) / 2 powi (?e - 52)" using z by simp
  then have m: "0 \<le> ?m" by (rule round_half_even_nonneg)
  have r: "of_int ?m * (2::rat) powi (?e - 52) = of_int (?m * 2 ^ nat (?e - 52))"
    by (simp only: u of_int_mult)
  have nn: "0 \<le> ?m * 2 ^ nat (?e - 52)" using m by simp
  have pos: "(0::rat) < of_int z" using z by simp
  show ?thesis
    unfolding to_double_pos [OF pos] e r using nn by auto
qed

lemma to_double_0: "to_double 0 = Num 0"
  by (simp add: to_double_def)

lemma to_double_minus_half: "to_double (- (1 / 2)) = Num (- (1 / 2))"
  by code_simp

lemma minus_one_exact:
  "0 < z \<Longrightarrow> z \<le> 2 ^ 53 \<Longrightarrow> minus_one (Num (of_int z)) = Num (of_int (z - 1))"
  using to_double_of_int [of "z - 1"] by simp

lemma minus_one_count:
  "0 < z \<Longrightarrow>
     minus_one (Num (of_int z)) = Infinity
       \<or> (\<exists>i\<ge>0. minus_one (Num (of_int z)) = Num (of_int i))"
  using to_double_of_nonneg_int [of "z - 1"] by simp

lemma minus_one_2_54: "minus_one (Num (2 ^ 54)) = Num (2 ^ 54)"
  by code_simp

section \<open>The fresh limit state\<close>

text \<open>
  The assignments of lines 51 to 57 are made in the order of the list: the entry of a name
  is the one written by its last declaration, and a name that is not declared has none.
\<close>

lemma makeFilesLeft_snoc:
  "makeFilesLeft (flds @ [f]) =
     (makeFilesLeft flds)(name f \<mapsto> (case maxCount f of Some n \<Rightarrow> n | None \<Rightarrow> Infinity))"
  by (simp add: makeFilesLeft_def split: option.splits)

lemma makeFilesLeft_undeclared:
  "n \<notin> set (map name flds) \<Longrightarrow> makeFilesLeft flds n = None"
proof (induction flds rule: rev_induct)
  case Nil
  show ?case by (simp add: makeFilesLeft_def)
next
  case (snoc f flds)
  then show ?case by (simp add: makeFilesLeft_snoc)
qed

lemma makeFilesLeft_last_declaration:
  "j < length flds \<Longrightarrow> name (flds ! j) \<notin> set (map name (drop (Suc j) flds)) \<Longrightarrow>
     makeFilesLeft flds (name (flds ! j)) =
       Some (case maxCount (flds ! j) of Some n \<Rightarrow> n | None \<Rightarrow> Infinity)"
proof (induction flds rule: rev_induct)
  case Nil
  then show ?case by simp
next
  case (snoc f flds)
  show ?case
  proof (cases "j < length flds")
    case True
    with snoc.prems have ne: "name f \<noteq> name (flds ! j)"
      and later: "name (flds ! j) \<notin> set (map name (drop (Suc j) flds))"
      by (auto simp: nth_append)
    from snoc.IH [OF True later] ne True show ?thesis
      by (simp add: makeFilesLeft_snoc nth_append)
  next
    case False
    with snoc.prems have "j = length flds" by simp
    then show ?thesis by (simp add: makeFilesLeft_snoc)
  qed
qed

section \<open>One call of the wrapped filter\<close>

lemma wrapped_answer:
  "snd (wrappedFileFilter ff fl req file cb) =
     (if number_le (or_zero (fl (fieldname file))) (Num 0)
      then cb (Some (MulterError ''LIMIT_UNEXPECTED_FILE'' (fieldname file))) None
      else ff req file cb)"
  by (simp add: wrappedFileFilter_def)

lemma wrapped_state:
  "fst (wrappedFileFilter ff fl req file cb) =
     (if number_le (or_zero (fl (fieldname file))) (Num 0) then fl
      else fl(fieldname file \<mapsto> minus_one (to_number (fl (fieldname file)))))"
  by (simp add: wrappedFileFilter_def)

text \<open>
  A count that is rejected now is rejected after any number of further files. For an
  integer count up to \<open>2^53\<close> an admission moves the threshold by one, and the count stays
  such an integer.
\<close>

lemma number_le_or_zero_mono:
  "number_le (or_zero v) (Num 0) \<Longrightarrow> 0 \<le> k \<Longrightarrow> number_le (or_zero v) (Num k)"
  by (cases v; cases "the v") (auto split: if_splits)

lemma number_le_minus_one:
  assumes "\<not> number_le (or_zero v) (Num 0)"
    and "\<And>q. v = Some (Num q) \<Longrightarrow> q \<in> \<int> \<and> q \<le> 2 ^ 53"
  shows "number_le (or_zero (Some (minus_one (to_number v)))) (Num k)
       = number_le (or_zero v) (Num (1 + k))"
    and "\<And>q. minus_one (to_number v) = Num q \<Longrightarrow> q \<in> \<int> \<and> q \<le> 2 ^ 53"
proof -
  consider "v = Some Infinity" | q where "v = Some (Num q)" "0 < q"
    using assms(1) by (cases v; cases "the v") (auto split: if_splits)
  then have "(number_le (or_zero (Some (minus_one (to_number v)))) (Num k)
       = number_le (or_zero v) (Num (1 + k)))
    \<and> (\<forall>q. minus_one (to_number v) = Num q \<longrightarrow> q \<in> \<int> \<and> q \<le> 2 ^ 53)"
  proof cases
    case 1
    then show ?thesis by simp
  next
    case 2
    with assms(2) have "q \<in> \<int>" "q \<le> 2 ^ 53" by auto
    then obtain z where z: "q = of_int z" by (auto elim: Ints_cases)
    with 2 \<open>q \<le> 2 ^ 53\<close> have zpos: "0 < z" and zle: "z \<le> 2 ^ 53"
      by simp_all
    have m: "minus_one (to_number v) = Num (of_int (z - 1))"
      using 2 z minus_one_exact [OF zpos zle] by simp
    have "z - 1 \<le> 2 ^ 53" using zle by simp
    then have "(of_int (z - 1) :: rat) \<le> 2 ^ 53"
      by (simp only: of_int_le_numeral_power_cancel_iff)
    moreover have "((of_int (z - 1) :: rat) \<le> k) = ((of_int z :: rat) \<le> 1 + k)" by auto
    moreover have "(of_int z :: rat) \<noteq> 0" using zpos by simp
    ultimately show ?thesis using 2 z m by (auto simp del: of_int_diff)
  qed
  then show "number_le (or_zero (Some (minus_one (to_number v)))) (Num k)
       = number_le (or_zero v) (Num (1 + k))"
    and "\<And>q. minus_one (to_number v) = Num q \<Longrightarrow> q \<in> \<int> \<and> q \<le> 2 ^ 53"
    by blast+
qed

text \<open>
  A count that is \<open>Infinity\<close> or a non-negative integer stays one of the two.
\<close>

lemma wrapped_keeps_count:
  assumes "fl n = Some Infinity \<or> (\<exists>z\<ge>0. fl n = Some (Num (of_int z)))"
  shows "fst (wrappedFileFilter ff fl req file cb) n = Some Infinity
      \<or> (\<exists>z\<ge>0. fst (wrappedFileFilter ff fl req file cb) n = Some (Num (of_int z)))"
proof (cases "fieldname file = n \<and> \<not> number_le (or_zero (fl n)) (Num 0)")
  case False
  then have "fst (wrappedFileFilter ff fl req file cb) n = fl n"
    by (auto simp: wrapped_state)
  with assms show ?thesis by simp
next
  case True
  then have upd: "fst (wrappedFileFilter ff fl req file cb) n = Some (minus_one (to_number (fl n)))"
    by (simp add: wrapped_state)
  from assms show ?thesis
  proof
    assume "fl n = Some Infinity"
    with upd show ?thesis by simp
  next
    assume "\<exists>z\<ge>0. fl n = Some (Num (of_int z))"
    then obtain z where z: "0 \<le> z" "fl n = Some (Num (of_int z))" by blast
    with True have "0 < z" by (auto split: if_splits)
    from minus_one_count [OF this] upd z show ?thesis by auto
  qed
qed

section \<open>The calls of one request\<close>

lemma snd_process_Cons:
  "snd (process f s (c # cs)) =
     snd (f s (call_req c) (call_file c) (call_cb c))
       # snd (process f (fst (f s (call_req c) (call_file c) (call_cb c))) cs)"
  by (simp split: prod.splits)

lemma fst_process_Cons:
  "fst (process f s (c # cs)) =
     fst (process f (fst (f s (call_req c) (call_file c) (call_cb c))) cs)"
  by (simp split: prod.splits)

lemma length_process: "length (snd (process f s cs)) = length cs"
  by (induction cs arbitrary: s) (simp_all add: snd_process_Cons del: process.simps(2))

lemma naming_Cons:
  "naming n (c # cs) = (if fieldname (call_file c) = n then Suc (naming n cs) else naming n cs)"
  by (simp add: naming_def)

text \<open>
  The answer to the file part at position \<open>i\<close> is decided by the count its field started
  with and by the number of earlier parts of the request that name the same field.
\<close>

lemma process_wrapped_nth:
  assumes "i < length cs"
    and "\<And>q. fl (fieldname (call_file (cs ! i))) = Some (Num q) \<Longrightarrow> q \<in> \<int> \<and> q \<le> 2 ^ 53"
  shows "snd (process (wrappedFileFilter ff) fl cs) ! i =
       (if number_le (or_zero (fl (fieldname (call_file (cs ! i)))))
             (Num (of_nat (naming (fieldname (call_file (cs ! i))) (take i cs))))
        then call_cb (cs ! i)
               (Some (MulterError ''LIMIT_UNEXPECTED_FILE'' (fieldname (call_file (cs ! i))))) None
        else ff (call_req (cs ! i)) (call_file (cs ! i)) (call_cb (cs ! i)))"
  using assms
proof (induction cs arbitrary: fl i)
  case Nil
  then show ?case by simp
next
  case (Cons c cs)
  show ?case
  proof (cases i)
    case 0
    then show ?thesis
      by (simp add: snd_process_Cons wrapped_answer naming_def del: process.simps(2))
  next
    case (Suc i')
    with Cons.prems have i': "i' < length cs" by simp
    let ?n = "fieldname (call_file (cs ! i'))"
    let ?fl' = "fst (wrappedFileFilter ff fl (call_req c) (call_file c) (call_cb c))"
    have safe: "\<And>q. fl ?n = Some (Num q) \<Longrightarrow> q \<in> \<int> \<and> q \<le> 2 ^ 53"
      using Cons.prems(2) Suc by simp
    have key: "number_le (or_zero (?fl' ?n)) (Num (of_nat (naming ?n (take i' cs))))
        = number_le (or_zero (fl ?n)) (Num (of_nat (naming ?n (take (Suc i') (c # cs)))))"
      and safe': "\<And>q. ?fl' ?n = Some (Num q) \<Longrightarrow> q \<in> \<int> \<and> q \<le> 2 ^ 53"
    proof -
      show "number_le (or_zero (?fl' ?n)) (Num (of_nat (naming ?n (take i' cs))))
        = number_le (or_zero (fl ?n)) (Num (of_nat (naming ?n (take (Suc i') (c # cs)))))"
      proof (cases "fieldname (call_file c) = ?n")
        case False
        then show ?thesis by (simp add: wrapped_state naming_Cons)
      next
        case same: True
        show ?thesis
        proof (cases "number_le (or_zero (fl ?n)) (Num 0)")
          case True
          then show ?thesis
            using same number_le_or_zero_mono [of "fl ?n"]
            by (simp add: wrapped_state naming_Cons)
        next
          case False
          then show ?thesis
            using same number_le_minus_one(1) [OF False safe]
            by (simp add: wrapped_state naming_Cons)
        qed
      qed
    next
      fix q
      assume q: "?fl' ?n = Some (Num q)"
      show "q \<in> \<int> \<and> q \<le> 2 ^ 53"
      proof (cases "fieldname (call_file c) = ?n
          \<and> \<not> number_le (or_zero (fl ?n)) (Num 0)")
        case True
        then have "minus_one (to_number (fl ?n)) = Num q"
          using q by (simp add: wrapped_state)
        with True number_le_minus_one(2) [OF _ safe] show ?thesis by blast
      next
        case False
        then have "?fl' ?n = fl ?n" by (auto simp: wrapped_state)
        with q safe show ?thesis by simp
      qed
    qed
    have "snd (process (wrappedFileFilter ff) ?fl' cs) ! i' =
       (if number_le (or_zero (?fl' ?n)) (Num (of_nat (naming ?n (take i' cs))))
        then call_cb (cs ! i') (Some (MulterError ''LIMIT_UNEXPECTED_FILE'' ?n)) None
        else ff (call_req (cs ! i')) (call_file (cs ! i')) (call_cb (cs ! i')))"
      using safe' by (intro Cons.IH [OF i']) blast
    then show ?thesis
      using key Suc by (simp add: snd_process_Cons del: process.simps(2))
  qed
qed

lemma process_declared_nth:
  assumes "j < length flds" "maxCount (flds ! j) = Some (Num (of_nat k))" "k \<le> 2 ^ 53"
    "name (flds ! j) \<notin> set (map name (drop (Suc j) flds))"
    "i < length cs" "fieldname (call_file (cs ! i)) = name (flds ! j)"
  shows "snd (process (wrappedFileFilter ff) (makeFilesLeft flds) cs) ! i =
            (if naming (name (flds ! j)) (take i cs) < k
             then ff (call_req (cs ! i)) (call_file (cs ! i)) (call_cb (cs ! i))
             else call_cb (cs ! i)
                    (Some (MulterError ''LIMIT_UNEXPECTED_FILE'' (name (flds ! j)))) None)"
proof -
  have init: "makeFilesLeft flds (name (flds ! j)) = Some (Num (of_nat k))"
    using makeFilesLeft_last_declaration [of j flds] assms by simp
  have "(of_nat k :: rat) \<le> 2 ^ 53"
    using assms(3) by (metis of_nat_le_iff of_nat_numeral of_nat_power)
  then have safe: "\<And>q. makeFilesLeft flds (fieldname (call_file (cs ! i))) = Some (Num q)
      \<Longrightarrow> q \<in> \<int> \<and> q \<le> 2 ^ 53"
    using init assms(6) by auto
  show ?thesis
    using process_wrapped_nth [where i = i and cs = cs and fl = "makeFilesLeft flds" and ff = ff,
        OF assms(5) safe] init assms(6)
    by (auto simp: not_less)
qed

lemma process_undeclared_nth:
  assumes "i < length cs" "fieldname (call_file (cs ! i)) \<notin> set (map name flds)"
  shows "snd (process (wrappedFileFilter ff) (makeFilesLeft flds) cs) ! i =
            call_cb (cs ! i)
              (Some (MulterError ''LIMIT_UNEXPECTED_FILE'' (fieldname (call_file (cs ! i))))) None"
proof -
  have "makeFilesLeft flds (fieldname (call_file (cs ! i))) = None"
    using assms(2) by (rule makeFilesLeft_undeclared)
  then show ?thesis
    using process_wrapped_nth [where i = i and cs = cs and fl = "makeFilesLeft flds" and ff = ff,
        OF assms(1)] by simp
qed

text \<open>
  A count that the subtraction leaves as it is never runs out.
\<close>

lemma process_wrapped_stuck:
  assumes "i < length cs"
    and "fl (fieldname (call_file (cs ! i))) = Some v"
    and "minus_one v = v"
    and "\<not> number_le (or_zero (Some v)) (Num 0)"
  shows "snd (process (wrappedFileFilter ff) fl cs) ! i =
       ff (call_req (cs ! i)) (call_file (cs ! i)) (call_cb (cs ! i))"
  using assms(1,2)
proof (induction cs arbitrary: fl i)
  case Nil
  then show ?case by simp
next
  case (Cons c cs)
  show ?case
  proof (cases i)
    case 0
    with Cons.prems assms(4) show ?thesis
      by (simp add: snd_process_Cons wrapped_answer del: process.simps(2) or_zero.simps)
  next
    case (Suc i')
    with Cons.prems have i': "i' < length cs" by simp
    let ?n = "fieldname (call_file (cs ! i'))"
    let ?fl' = "fst (wrappedFileFilter ff fl (call_req c) (call_file c) (call_cb c))"
    have "fl ?n = Some v" using Cons.prems(2) Suc by simp
    then have "?fl' ?n = Some v"
      using assms(3) by (cases "fieldname (call_file c) = ?n") (simp_all add: wrapped_state)
    from Cons.IH [where fl = ?fl' and i = i', OF i' this] Suc show ?thesis
      by (simp add: snd_process_Cons del: process.simps(2))
  qed
qed

lemma process_keeps_count:
  "fl n = Some Infinity \<or> (\<exists>z\<ge>0. fl n = Some (Num (of_int z))) \<Longrightarrow>
     fst (process (wrappedFileFilter ff) fl cs) n = Some Infinity
       \<or> (\<exists>z\<ge>0. fst (process (wrappedFileFilter ff) fl cs) n = Some (Num (of_int z)))"
proof (induction cs arbitrary: fl)
  case Nil
  then show ?case by simp
next
  case (Cons c cs)
  have "fst (wrappedFileFilter ff fl (call_req c) (call_file c) (call_cb c)) n = Some Infinity
      \<or> (\<exists>z\<ge>0. fst (wrappedFileFilter ff fl (call_req c) (call_file c) (call_cb c)) n
                 = Some (Num (of_int z)))"
    using Cons.prems by (rule wrapped_keeps_count)
  from Cons.IH [where fl = "fst (wrappedFileFilter ff fl (call_req c) (call_file c) (call_cb c))",
      OF this]
  show ?case
    by (simp add: fst_process_Cons del: process.simps(2))
qed

lemma process_any:
  "snd (process (\<lambda>s req file cb. (g s, ff req file cb)) s cs) =
     map (\<lambda>c. ff (call_req c) (call_file c) (call_cb c)) cs"
  by (induction cs arbitrary: s) (simp_all add: snd_process_Cons del: process.simps(2))

section \<open>Requests in flight\<close>

lemma captured_invoke_setup:
  "captured (invoke_setup this flds strategy h) =
     \<lparr> objects = (objects h)(next_ref h \<mapsto> makeFilesLeft flds), next_ref = Suc (next_ref h) \<rparr>"
  by (simp add: invoke_setup_def Object_create_null_def)

lemma fileFilter_invoke_setup:
  "SetupResult.fileFilter (invoke_setup this flds strategy h) =
     wrappedFileFilter_at (Multer.fileFilter this) (next_ref h)"
  by (simp add: invoke_setup_def Object_create_null_def)

lemma wrappedFileFilter_at_answer:
  "snd (wrappedFileFilter_at ff r h req file cb) =
     snd (wrappedFileFilter ff (deref h r) req file cb)"
  by (simp add: wrappedFileFilter_at_def split: prod.splits)

lemma wrappedFileFilter_at_next_ref:
  "next_ref (fst (wrappedFileFilter_at ff r h req file cb)) = next_ref h"
  by (simp add: wrappedFileFilter_at_def split: prod.splits)

lemma wrappedFileFilter_at_deref:
  "deref (fst (wrappedFileFilter_at ff r h req file cb)) r' =
     (if r' = r then fst (wrappedFileFilter ff (deref h r) req file cb) else deref h r')"
  by (simp add: wrappedFileFilter_at_def deref_def split: prod.splits)

lemma snd_serve_FilePart:
  "snd (serve S sv (FilePart r c # evs)) =
     (if r < length (filters sv)
      then (r, snd ((filters sv ! r) (heap_of sv) (call_req c) (call_file c) (call_cb c)))
             # snd (serve S
                      (sv\<lparr> heap_of :=
                           fst ((filters sv ! r) (heap_of sv) (call_req c) (call_file c)
                                  (call_cb c)) \<rparr>) evs)
      else snd (serve S sv evs))"
  by (simp split: prod.splits)

lemma fst_serve_FilePart:
  "fst (serve S sv (FilePart r c # evs)) =
     (if r < length (filters sv)
      then fst (serve S
                  (sv\<lparr> heap_of :=
                       fst ((filters sv ! r) (heap_of sv) (call_req c) (call_file c)
                              (call_cb c)) \<rparr>) evs)
      else fst (serve S sv evs))"
  by (simp split: prod.splits)

lemma serve_append:
  "serve S sv (xs @ ys) =
     (fst (serve S (fst (serve S sv xs)) ys),
      snd (serve S sv xs) @ snd (serve S (fst (serve S sv xs)) ys))"
proof (induction xs arbitrary: sv)
  case Nil
  show ?case by simp
next
  case (Cons e xs)
  show ?case
  proof (cases e)
    case NewRequest
    then show ?thesis using Cons.IH by simp
  next
    case (FilePart r c)
    then show ?thesis using Cons.IH
      by (simp split: prod.splits)
  qed
qed

lemma answers_of_append: "answers_of r (xs @ ys) = answers_of r xs @ answers_of r ys"
  by (simp add: answers_of_def)

lemma answers_of_Cons:
  "answers_of r ((r', out) # outs) = (if r' = r then out # answers_of r outs else answers_of r outs)"
  by (simp add: answers_of_def)

lemma serve_filters_mono: "length (filters sv) \<le> length (filters (fst (serve S sv evs)))"
proof (induction evs arbitrary: sv)
  case Nil
  show ?case by simp
next
  case (Cons e evs)
  show ?case
  proof (cases e)
    case NewRequest
    then show ?thesis
      using Cons.IH [of "\<lparr> heap_of = captured (S (heap_of sv)),
                           filters = filters sv @ [SetupResult.fileFilter (S (heap_of sv))] \<rparr>"]
      by simp
  next
    case (FilePart r c)
    then show ?thesis
      using Cons.IH [of sv]
        Cons.IH [of "sv\<lparr> heap_of :=
          fst ((filters sv ! r) (heap_of sv) (call_req c) (call_file c) (call_cb c)) \<rparr>"]
      by (simp add: fst_serve_FilePart del: serve.simps(3))
  qed
qed

text \<open>
  No answer is given for a request that has not started. The filter of the request that
  started as number \<open>r\<close> is the closure over the object with reference \<open>r\<close>, and the
  answers for it are those of its own file parts on that object.
\<close>

lemma serve_no_answers:
  "length (filters (fst (serve S sv evs))) \<le> r \<Longrightarrow> answers_of r (snd (serve S sv evs)) = []"
proof (induction evs arbitrary: sv)
  case Nil
  show ?case by (simp add: answers_of_def)
next
  case (Cons e evs)
  show ?case
  proof (cases e)
    case NewRequest
    with Cons show ?thesis by simp
  next
    case (FilePart r' c)
    show ?thesis
    proof (cases "r' < length (filters sv)")
      case False
      with Cons FilePart show ?thesis by simp
    next
      case True
      let ?sv = "sv\<lparr> heap_of :=
          fst ((filters sv ! r') (heap_of sv) (call_req c) (call_file c) (call_cb c)) \<rparr>"
      have fin: "length (filters (fst (serve S ?sv evs))) \<le> r"
        using Cons.prems FilePart True by (simp add: fst_serve_FilePart del: serve.simps(3))
      have "length (filters sv) \<le> r"
        using serve_filters_mono [of ?sv S evs] fin by simp
      with True have "r' \<noteq> r" by simp
      with Cons.IH [OF fin] FilePart True show ?thesis
        by (simp add: snd_serve_FilePart answers_of_Cons del: serve.simps(3))
    qed
  qed
qed

lemma serve_keeps_filters:
  "filters sv = map (wrappedFileFilter_at (Multer.fileFilter this)) [0..<next_ref (heap_of sv)] \<Longrightarrow>
     filters (fst (serve (invoke_setup this flds strategy) sv evs)) =
       map (wrappedFileFilter_at (Multer.fileFilter this))
         [0..<next_ref (heap_of (fst (serve (invoke_setup this flds strategy) sv evs)))]"
proof (induction evs arbitrary: sv)
  case Nil
  then show ?case by simp
next
  case (Cons e evs)
  show ?case
  proof (cases e)
    case NewRequest
    let ?sv = "\<lparr> heap_of = captured (invoke_setup this flds strategy (heap_of sv)),
        filters = filters sv
          @ [SetupResult.fileFilter (invoke_setup this flds strategy (heap_of sv))] \<rparr>"
    have "filters ?sv =
        map (wrappedFileFilter_at (Multer.fileFilter this)) [0..<next_ref (heap_of ?sv)]"
      using Cons.prems by (simp add: captured_invoke_setup fileFilter_invoke_setup)
    from Cons.IH [OF this] NewRequest show ?thesis by simp
  next
    case (FilePart r c)
    show ?thesis
    proof (cases "r < length (filters sv)")
      case False
      with Cons FilePart show ?thesis by simp
    next
      case True
      let ?sv = "sv\<lparr> heap_of :=
          fst ((filters sv ! r) (heap_of sv) (call_req c) (call_file c) (call_cb c)) \<rparr>"
      have "filters ?sv =
          map (wrappedFileFilter_at (Multer.fileFilter this)) [0..<next_ref (heap_of ?sv)]"
        using Cons.prems True by (simp add: wrappedFileFilter_at_next_ref)
      from Cons.IH [OF this] FilePart True show ?thesis
        by (simp add: fst_serve_FilePart del: serve.simps(3))
    qed
  qed
qed

lemma serve_answers:
  "filters sv = map (wrappedFileFilter_at (Multer.fileFilter this)) [0..<next_ref (heap_of sv)] \<Longrightarrow>
   r < next_ref (heap_of sv) \<Longrightarrow>
     answers_of r (snd (serve (invoke_setup this flds strategy) sv evs)) =
       snd (process (wrappedFileFilter (Multer.fileFilter this)) (deref (heap_of sv) r)
              (parts_of r evs))"
proof (induction evs arbitrary: sv)
  case Nil
  show ?case by (simp add: answers_of_def)
next
  case (Cons e evs)
  show ?case
  proof (cases e)
    case NewRequest
    let ?sv = "\<lparr> heap_of = captured (invoke_setup this flds strategy (heap_of sv)),
        filters = filters sv
          @ [SetupResult.fileFilter (invoke_setup this flds strategy (heap_of sv))] \<rparr>"
    have inv: "filters ?sv =
        map (wrappedFileFilter_at (Multer.fileFilter this)) [0..<next_ref (heap_of ?sv)]"
      using Cons.prems(1) by (simp add: captured_invoke_setup fileFilter_invoke_setup)
    have r: "r < next_ref (heap_of ?sv)"
      using Cons.prems(2) by (simp add: captured_invoke_setup)
    have same: "deref (heap_of ?sv) r = deref (heap_of sv) r"
      using Cons.prems(2) by (simp add: captured_invoke_setup deref_def)
    from Cons.IH [OF inv r] NewRequest same show ?thesis by simp
  next
    case (FilePart r' c)
    show ?thesis
    proof (cases "r' < length (filters sv)")
      case False
      with Cons.prems have "r' \<noteq> r" by simp
      with Cons FilePart False show ?thesis by simp
    next
      case True
      let ?sv = "sv\<lparr> heap_of :=
          fst ((filters sv ! r') (heap_of sv) (call_req c) (call_file c) (call_cb c)) \<rparr>"
      have f: "filters sv ! r' = wrappedFileFilter_at (Multer.fileFilter this) r'"
        using Cons.prems(1) True by simp
      have nr: "next_ref (heap_of ?sv) = next_ref (heap_of sv)"
        by (simp add: f wrappedFileFilter_at_next_ref)
      have inv: "filters ?sv =
          map (wrappedFileFilter_at (Multer.fileFilter this)) [0..<next_ref (heap_of ?sv)]"
        unfolding nr using Cons.prems(1) by simp
      have r: "r < next_ref (heap_of ?sv)"
        unfolding nr using Cons.prems(2) .
      let ?wf = "wrappedFileFilter (Multer.fileFilter this) (deref (heap_of sv) r')
          (call_req c) (call_file c) (call_cb c)"
      have out: "snd ((filters sv ! r') (heap_of sv) (call_req c) (call_file c) (call_cb c))
          = snd ?wf"
        by (simp add: f wrappedFileFilter_at_answer)
      let ?h' = "fst ((filters sv ! r') (heap_of sv) (call_req c) (call_file c) (call_cb c))"
      have obj: "deref ?h' r = (if r = r' then fst ?wf else deref (heap_of sv) r)"
        by (simp add: f wrappedFileFilter_at_deref)
      have rest: "answers_of r (snd (serve (invoke_setup this flds strategy) ?sv evs)) =
          snd (process (wrappedFileFilter (Multer.fileFilter this)) (deref ?h' r)
                 (parts_of r evs))"
        using Cons.IH [OF inv r] by simp
      have "snd (serve (invoke_setup this flds strategy) sv (e # evs)) =
          (r', snd ?wf) # snd (serve (invoke_setup this flds strategy) ?sv evs)"
        using FilePart True by (simp add: snd_serve_FilePart out del: serve.simps(3))
      with rest obj show ?thesis
        unfolding FilePart
        by (cases "r' = r")
           (simp_all add: answers_of_Cons snd_process_Cons
              del: serve.simps(3) process.simps(2))
    qed
  qed
qed

section \<open>Claims on construction\<close>

text \<open>
  C2, as stated, fails. The claim takes the disk engine whenever a destination is
  supplied. Line 34 tests the truthiness of \<open>options.dest\<close>, and the empty string is
  falsy: with options whose \<open>dest\<close> is the empty string, the instance
  gets the in-memory engine.
\<close>

theorem empty_dest_counterexample:
  "dest (\<lparr> Options.storage = None, dest = Some [], Options.limits = None,
            Options.preservePath = None, Options.fileFilter = None \<rparr>
          :: (unit, unit, unit, unit) Options) = Some []
   \<and> Multer.storage
       (new_Multer (\<lparr> Options.storage = None, dest = Some [], Options.limits = None,
                       Options.preservePath = None, Options.fileFilter = None \<rparr>
                     :: (unit, unit, unit, unit) Options)) = MemoryStorage
   \<and> (MemoryStorage :: unit StorageEngine) \<noteq> DiskStorage []"
  by (simp add: new_Multer_def)

text \<open>
  C2, amended. An explicit storage engine in the options is used; otherwise a non-empty
  destination gives the disk engine targeting that destination; with neither (an empty
  destination counts as none) the in-memory engine is used.
\<close>

theorem storage_precedence:
  "(Options.storage options = Some engine \<longrightarrow> Multer.storage (new_Multer options) = engine)
   \<and> (Options.storage options = None \<and> dest options = Some d \<and> d \<noteq> []
        \<longrightarrow> Multer.storage (new_Multer options) = DiskStorage d)
   \<and> (Options.storage options = None \<and> (dest options = None \<or> dest options = Some [])
        \<longrightarrow> Multer.storage (new_Multer options) = MemoryStorage)"
  by (auto simp: new_Multer_def)

theorem storage_precedence_witness:
  "Multer.storage
     (new_Multer (\<lparr> Options.storage = Some (CustomStorage (7::nat)), dest = Some ''uploads'',
                     Options.limits = None, Options.preservePath = None,
                     Options.fileFilter = None \<rparr> :: (unit, unit, nat, unit) Options))
     = CustomStorage 7
   \<and> Multer.storage
       (new_Multer (\<lparr> Options.storage = None, dest = Some ''uploads'',
                       Options.limits = None, Options.preservePath = None,
                       Options.fileFilter = None \<rparr> :: (unit, unit, nat, unit) Options))
     = DiskStorage ''uploads''
   \<and> Multer.storage (new_Multer (emptyOptions :: (unit, unit, nat, unit) Options))
     = MemoryStorage"
  using
    storage_precedence [of "\<lparr> Options.storage = Some (CustomStorage (7::nat)), dest = Some ''uploads'',
                     Options.limits = None, Options.preservePath = None,
                     Options.fileFilter = None \<rparr> :: (unit, unit, nat, unit) Options"
       "CustomStorage 7" "''uploads''"]
    storage_precedence [of "\<lparr> Options.storage = None, dest = Some ''uploads'',
                       Options.limits = None, Options.preservePath = None,
                       Options.fileFilter = None \<rparr> :: (unit, unit, nat, unit) Options"
       "MemoryStorage" "''uploads''"]
    storage_precedence [of "emptyOptions :: (unit, unit, nat, unit) Options" "MemoryStorage" "[]"]
  by (simp add: emptyOptions_def)

text \<open>
  C3. When the options carry no \<open>fileFilter\<close>, the filter of the instance accepts every
  file: for every request and file it calls its callback with no error and the decision
  \<open>true\<close>.
\<close>

theorem default_filter_accepts_all:
  "Options.fileFilter options = None \<Longrightarrow>
     Multer.fileFilter (new_Multer options) req file cb = cb None (Some True)"
  by (simp add: new_Multer_def allowAll_def)

theorem default_filter_accepts_all_witness:
  "Multer.fileFilter
     (new_Multer (emptyOptions :: (unit, error option \<times> bool option, unit, unit) Options)) ()
     \<lparr> fieldname = ''avatar'', originalname = ''me.png'', encoding = ''7bit'',
       mimetype = ''image/png'' \<rparr>
     Pair
   = (None, Some True)"
  using default_filter_accepts_all [of "emptyOptions :: (unit, error option \<times> bool option, unit, unit) Options"]
  by (simp add: emptyOptions_def)

text \<open>
  C8, as stated, fails. The claim has the construction fail with an \<open>INVALID_OPTIONS\<close>
  error. Line 125 throws a plain \<open>TypeError\<close>, which carries no code; the code
  \<open>INVALID_OPTIONS\<close> occurs nowhere in \<open>src/index.ts\<close>.
\<close>

theorem factory_error_counterexample:
  "multer (Null :: (unit, unit, unit, unit) js_value)
     = Inl (TypeError ''Expected object for argument options'')
   \<and> error_code (TypeError ''Expected object for argument options'') = None
   \<and> error_code (TypeError ''Expected object for argument options'') \<noteq> Some ''INVALID_OPTIONS''"
  by (simp add: multer_def)

text \<open>
  C8, amended. For every argument that is neither \<open>undefined\<close> nor a non-null object
  (\<open>null\<close>, a boolean, a number, a string, a symbol, a bigint, a function) the factory
  fails by throwing \<open>TypeError('Expected object for argument options')\<close>, an error
  without a code. For \<open>undefined\<close> it succeeds with the instance that the empty options
  object gives.
\<close>

theorem factory_checks_argument:
  "(options \<noteq> Undefined \<and> (\<forall>ps. options \<noteq> Object ps)
      \<longrightarrow> multer options = Inl (TypeError ''Expected object for argument options'')
          \<and> error_code (TypeError ''Expected object for argument options'') = None)
   \<and> multer Undefined = Inr (new_Multer emptyOptions)
   \<and> multer Undefined = multer (Object emptyOptions)"
  by (cases options) (simp_all add: multer_def)

theorem factory_checks_argument_witness:
  "multer (Null :: (unit, unit, unit, unit) js_value)
     = Inl (TypeError ''Expected object for argument options'')
   \<and> multer (String ''uploads'' :: (unit, unit, unit, unit) js_value)
     = Inl (TypeError ''Expected object for argument options'')"
  using factory_checks_argument [of "Null :: (unit, unit, unit, unit) js_value"]
    factory_checks_argument [of "String ''uploads'' :: (unit, unit, unit, unit) js_value"]
  by blast

section \<open>Claims on the limit state\<close>

text \<open>
  C4, as stated, fails for a list that declares a name more than once. The claim maps
  every declared field name to the \<open>maxCount\<close> of its declaration; here the first
  declaration of \<open>docs\<close> has \<open>maxCount\<close> 3, and the limit state maps \<open>docs\<close> to 1,
  the count of the later declaration.
\<close>

theorem redeclared_field_counterexample:
  "name ([\<lparr> name = ''docs'', maxCount = Some (Num 3) \<rparr>,
          \<lparr> name = ''docs'', maxCount = Some (Num 1) \<rparr>] ! 0) = ''docs''
   \<and> maxCount ([\<lparr> name = ''docs'', maxCount = Some (Num 3) \<rparr>,
                 \<lparr> name = ''docs'', maxCount = Some (Num 1) \<rparr>] ! 0) = Some (Num 3)
   \<and> makeFilesLeft [\<lparr> name = ''docs'', maxCount = Some (Num 3) \<rparr>,
                     \<lparr> name = ''docs'', maxCount = Some (Num 1) \<rparr>] ''docs'' = Some (Num 1)"
  by (simp add: makeFilesLeft_def)

text \<open>
  C4, amended. The limit state captured by an invocation of the setup closure is
  \<open>makeFilesLeft\<close> of the declarations. It maps the name of every declaration that is not
  followed by a later declaration of the same name to that declaration's \<open>maxCount\<close>
  when this is a number, and to \<open>Infinity\<close> when it is absent (so a name declared more
  than once follows its last declaration). A name that is not declared has no entry, and
  an absent entry reads as the count 0.
\<close>

theorem limit_state_initialised:
  "captured (setup_closure this flds strategy ()) = makeFilesLeft flds
   \<and> (j < length flds \<and> name (flds ! j) \<notin> set (map name (drop (Suc j) flds))
        \<longrightarrow> makeFilesLeft flds (name (flds ! j)) =
              (case maxCount (flds ! j) of Some k \<Rightarrow> Some k | None \<Rightarrow> Some Infinity))
   \<and> (n \<notin> set (map name flds)
        \<longrightarrow> makeFilesLeft flds n = None \<and> or_zero (makeFilesLeft flds n) = Num 0)"
  using makeFilesLeft_last_declaration [of j flds] makeFilesLeft_undeclared [of n flds]
  by (simp add: setup_closure_def split: option.splits)

theorem limit_state_initialised_witness:
  "makeFilesLeft [\<lparr> name = ''docs'', maxCount = Some (Num 3) \<rparr>,
                  \<lparr> name = ''avatar'', maxCount = None \<rparr>,
                  \<lparr> name = ''docs'', maxCount = Some (Num 1) \<rparr>] ''docs'' = Some (Num 1)
   \<and> makeFilesLeft [\<lparr> name = ''docs'', maxCount = Some (Num 3) \<rparr>,
                    \<lparr> name = ''avatar'', maxCount = None \<rparr>,
                    \<lparr> name = ''docs'', maxCount = Some (Num 1) \<rparr>] ''avatar'' = Some Infinity
   \<and> makeFilesLeft [\<lparr> name = ''docs'', maxCount = Some (Num 3) \<rparr>,
                    \<lparr> name = ''avatar'', maxCount = None \<rparr>,
                    \<lparr> name = ''docs'', maxCount = Some (Num 1) \<rparr>] ''cover'' = None"
proof -
  let ?flds = "[\<lparr> name = ''docs'', maxCount = Some (Num 3) \<rparr>,
                \<lparr> name = ''avatar'', maxCount = None \<rparr>,
                \<lparr> name = ''docs'', maxCount = Some (Num 1) \<rparr>]"
  let ?m = "new_Multer (emptyOptions :: (unit, unit, unit, unit) Options)"
  have last_docs: "2 < length ?flds \<and> name (?flds ! 2) \<notin> set (map name (drop (Suc 2) ?flds))"
    by simp
  have last_avatar: "1 < length ?flds \<and> name (?flds ! 1) \<notin> set (map name (drop (Suc 1) ?flds))"
    by simp
  have undeclared: "''cover'' \<notin> set (map name ?flds)"
    by simp
  from limit_state_initialised [of ?m ?flds OBJECT 2 "''cover''"] last_docs undeclared
  have "makeFilesLeft ?flds (name (?flds ! 2)) =
          (case maxCount (?flds ! 2) of Some k \<Rightarrow> Some k | None \<Rightarrow> Some Infinity)"
    and "makeFilesLeft ?flds ''cover'' = None"
    by blast+
  moreover
  from limit_state_initialised [of ?m ?flds OBJECT 1 "''cover''"] last_avatar
  have "makeFilesLeft ?flds (name (?flds ! 1)) =
          (case maxCount (?flds ! 1) of Some k \<Rightarrow> Some k | None \<Rightarrow> Some Infinity)"
    by blast
  ultimately show ?thesis by simp
qed

text \<open>
  C10, as stated, fails. The claim has the remaining count of every declared field
  greater than or equal to zero during the whole request. \<open>maxCount\<close> is any number
  (line 90). A negative one is stored as it is: the count of \<open>avatar\<close> is \<open>-1\<close> from the
  start of the request. A fractional one is positive when it is decremented and negative
  afterwards: with \<open>maxCount\<close> 0.5 the count of \<open>docs\<close> is \<open>-0.5\<close> after the first
  file. And the count of a field follows the last declaration of its name: \<open>cover\<close>,
  declared with \<open>maxCount\<close> 1 and then with \<open>-1\<close>, has the count \<open>-1\<close>.
\<close>

theorem negative_or_fractional_maxCount_counterexample:
  "makeFilesLeft [\<lparr> name = ''avatar'', maxCount = Some (Num (- 1)) \<rparr>] ''avatar'' = Some (Num (- 1))
   \<and> \<not> number_le (Num 0) (Num (- 1))
   \<and> makeFilesLeft [\<lparr> name = ''docs'', maxCount = Some (Num (1 / 2)) \<rparr>] ''docs''
       = Some (Num (1 / 2))
   \<and> number_le (Num 0) (Num (1 / 2))
   \<and> fst (process (wrappedFileFilter allowAll)
            (makeFilesLeft [\<lparr> name = ''docs'', maxCount = Some (Num (1 / 2)) \<rparr>])
            [\<lparr> call_req = (),
               call_file = \<lparr> fieldname = ''docs'', originalname = ''a.pdf'',
                              encoding = ''7bit'', mimetype = ''application/pdf'' \<rparr>,
               call_cb = Pair \<rparr>]) ''docs''
       = Some (Num (- (1 / 2)))
   \<and> \<not> number_le (Num 0) (Num (- (1 / 2)))
   \<and> maxCount ([\<lparr> name = ''cover'', maxCount = Some (Num 1) \<rparr>,
                 \<lparr> name = ''cover'', maxCount = Some (Num (- 1)) \<rparr>] ! 0) = Some (Num 1)
   \<and> makeFilesLeft [\<lparr> name = ''cover'', maxCount = Some (Num 1) \<rparr>,
                     \<lparr> name = ''cover'', maxCount = Some (Num (- 1)) \<rparr>] ''cover''
       = Some (Num (- 1))"
  by (simp add: makeFilesLeft_def wrappedFileFilter_def to_double_minus_half)

text \<open>
  C10, amended. A file whose field has no entry, or an entry that is \<open>NaN\<close>,
  \<open>-Infinity\<close> or a number less than or equal to zero, is rejected: the callback gets
  \<open>LIMIT_UNEXPECTED_FILE\<close> with the field name, the limit state stays as it is and the
  caller's filter is not called. A count is decremented only when it is strictly
  positive, and then the file goes to the caller's filter; the new count is the double
  nearest to the count minus one, which for an integer count up to \<open>2^53\<close> is exactly one
  less (an unbounded count stays unbounded). Hence, for every declared field that is not
  declared again later and whose \<open>maxCount\<close> is absent, \<open>Infinity\<close> or a non-negative
  integer, whatever the other declarations are, the count of the field is present and
  greater than or equal to zero after any number \<open>m\<close> of the file parts of the request.
\<close>

theorem counters_guarded:
  "((fl (fieldname upload) = None \<or> fl (fieldname upload) = Some NaN
       \<or> fl (fieldname upload) = Some NegInfinity
       \<or> (fl (fieldname upload) = Some (Num q) \<and> q \<le> 0))
      \<longrightarrow> wrappedFileFilter ff fl req upload cb =
            (fl, cb (Some (MulterError ''LIMIT_UNEXPECTED_FILE'' (fieldname upload))) None))
   \<and> (fl (fieldname upload) = Some (Num q) \<and> 0 < q
      \<longrightarrow> wrappedFileFilter ff fl req upload cb =
            (fl(fieldname upload \<mapsto> minus_one (Num q)), ff req upload cb))
   \<and> (0 < z \<and> z \<le> 2 ^ 53 \<longrightarrow> minus_one (Num (of_int z)) = Num (of_int (z - 1)))
   \<and> (fl (fieldname upload) = Some Infinity
      \<longrightarrow> wrappedFileFilter ff fl req upload cb = (fl, ff req upload cb))
   \<and> (j < length flds \<and> name (flds ! j) \<notin> set (map name (drop (Suc j) flds))
        \<and> (maxCount (flds ! j) = None \<or> maxCount (flds ! j) = Some Infinity
             \<or> (maxCount (flds ! j) = Some (Num (of_int k)) \<and> 0 \<le> k))
      \<longrightarrow> (\<exists>u. fst (process (wrappedFileFilter ff) (makeFilesLeft flds) (take m cs))
                  (name (flds ! j)) = Some u
               \<and> number_le (Num 0) u))"
proof (intro conjI impI)
  assume "fl (fieldname upload) = None \<or> fl (fieldname upload) = Some NaN
       \<or> fl (fieldname upload) = Some NegInfinity
       \<or> (fl (fieldname upload) = Some (Num q) \<and> q \<le> 0)"
  then have "number_le (or_zero (fl (fieldname upload))) (Num 0)" by auto
  then show "wrappedFileFilter ff fl req upload cb =
            (fl, cb (Some (MulterError ''LIMIT_UNEXPECTED_FILE'' (fieldname upload))) None)"
    by (simp add: wrappedFileFilter_def)
next
  assume "fl (fieldname upload) = Some (Num q) \<and> 0 < q"
  then show "wrappedFileFilter ff fl req upload cb =
            (fl(fieldname upload \<mapsto> minus_one (Num q)), ff req upload cb)"
    by (simp add: wrappedFileFilter_def del: minus_one.simps)
next
  assume "0 < z \<and> z \<le> 2 ^ 53"
  then show "minus_one (Num (of_int z)) = Num (of_int (z - 1))"
    using minus_one_exact by blast
next
  assume h: "fl (fieldname upload) = Some Infinity"
  then have "fl(fieldname upload \<mapsto> Infinity) = fl" by (simp add: map_upd_triv)
  with h show "wrappedFileFilter ff fl req upload cb = (fl, ff req upload cb)"
    by (simp add: wrappedFileFilter_def)
next
  assume h: "j < length flds \<and> name (flds ! j) \<notin> set (map name (drop (Suc j) flds))
        \<and> (maxCount (flds ! j) = None \<or> maxCount (flds ! j) = Some Infinity
             \<or> (maxCount (flds ! j) = Some (Num (of_int k)) \<and> 0 \<le> k))"
  let ?n = "name (flds ! j)"
  have "makeFilesLeft flds ?n = Some Infinity
      \<or> (\<exists>z\<ge>0. makeFilesLeft flds ?n = Some (Num (of_int z)))"
    using makeFilesLeft_last_declaration [of j flds] h by auto
  then have "fst (process (wrappedFileFilter ff) (makeFilesLeft flds) (take m cs)) ?n = Some Infinity
      \<or> (\<exists>z\<ge>0. fst (process (wrappedFileFilter ff) (makeFilesLeft flds) (take m cs)) ?n
                 = Some (Num (of_int z)))"
    by (rule process_keeps_count)
  then show "\<exists>u. fst (process (wrappedFileFilter ff) (makeFilesLeft flds) (take m cs)) ?n = Some u
               \<and> number_le (Num 0) u"
    by auto
qed

theorem counters_guarded_witness:
  "wrappedFileFilter allowAll (Map.empty(''avatar'' \<mapsto> Num 0)) ()
     \<lparr> fieldname = ''avatar'', originalname = ''me.png'', encoding = ''7bit'',
       mimetype = ''image/png'' \<rparr> Pair
     = (Map.empty(''avatar'' \<mapsto> Num 0),
        (Some (MulterError ''LIMIT_UNEXPECTED_FILE'' ''avatar''), None))
   \<and> wrappedFileFilter allowAll (Map.empty(''avatar'' \<mapsto> Num 2)) ()
       \<lparr> fieldname = ''avatar'', originalname = ''me.png'', encoding = ''7bit'',
         mimetype = ''image/png'' \<rparr> Pair
     = (Map.empty(''avatar'' \<mapsto> Num 1), (None, Some True))
   \<and> wrappedFileFilter allowAll (Map.empty(''avatar'' \<mapsto> Infinity)) ()
       \<lparr> fieldname = ''avatar'', originalname = ''me.png'', encoding = ''7bit'',
         mimetype = ''image/png'' \<rparr> Pair
     = (Map.empty(''avatar'' \<mapsto> Infinity), (None, Some True))
   \<and> number_le (Num 0)
       (the (fst (process (wrappedFileFilter allowAll)
                    (makeFilesLeft [\<lparr> name = ''avatar'', maxCount = Some (Num 1) \<rparr>])
                    (take 2
                       [\<lparr> call_req = (),
                          call_file = \<lparr> fieldname = ''avatar'', originalname = ''a.png'',
                                         encoding = ''7bit'', mimetype = ''image/png'' \<rparr>,
                          call_cb = Pair \<rparr>,
                        \<lparr> call_req = (),
                          call_file = \<lparr> fieldname = ''avatar'', originalname = ''b.png'',
                                         encoding = ''7bit'', mimetype = ''image/png'' \<rparr>,
                          call_cb = Pair \<rparr>])) ''avatar''))"
proof -
  let ?file = "\<lparr> fieldname = ''avatar'', originalname = ''me.png'', encoding = ''7bit'',
                 mimetype = ''image/png'' \<rparr>"
  let ?ff = "allowAll :: (unit, error option \<times> bool option) FileFilter"
  let ?flds = "[\<lparr> name = ''avatar'', maxCount = Some (Num 1) \<rparr>]"
  let ?cs = "[\<lparr> call_req = (),
                 call_file = \<lparr> fieldname = ''avatar'', originalname = ''a.png'',
                                encoding = ''7bit'', mimetype = ''image/png'' \<rparr>,
                 call_cb = Pair \<rparr>,
               \<lparr> call_req = (),
                 call_file = \<lparr> fieldname = ''avatar'', originalname = ''b.png'',
                                encoding = ''7bit'', mimetype = ''image/png'' \<rparr>,
                 call_cb = Pair \<rparr>]"
  let ?fl0 = "Map.empty(''avatar'' \<mapsto> Num 0)"
  let ?fl2 = "Map.empty(''avatar'' \<mapsto> Num 2)"
  let ?flI = "Map.empty(''avatar'' \<mapsto> Infinity)"
  have nm: "name (?flds ! 0) = ''avatar''" and fn: "fieldname ?file = ''avatar''"
    by simp_all
  have exhausted: "?fl0 (fieldname ?file) = None \<or> ?fl0 (fieldname ?file) = Some NaN
       \<or> ?fl0 (fieldname ?file) = Some NegInfinity
       \<or> (?fl0 (fieldname ?file) = Some (Num 0) \<and> (0::rat) \<le> 0)"
    by simp
  have positive: "?fl2 (fieldname ?file) = Some (Num 2) \<and> (0::rat) < 2"
    by simp
  have exact: "(0::int) < 2 \<and> (2::int) \<le> 2 ^ 53" by simp
  have unbounded: "?flI (fieldname ?file) = Some Infinity"
    by simp
  have declared: "0 < length ?flds \<and> name (?flds ! 0) \<notin> set (map name (drop (Suc 0) ?flds))
      \<and> (maxCount (?flds ! 0) = None \<or> maxCount (?flds ! 0) = Some Infinity
           \<or> (maxCount (?flds ! 0) = Some (Num (of_int 1)) \<and> (0::int) \<le> 1))"
    by simp
  have "wrappedFileFilter ?ff ?fl0 () ?file Pair
      = (?fl0, (Some (MulterError ''LIMIT_UNEXPECTED_FILE'' (fieldname ?file)), None))"
    using exhausted
    by (rule counters_guarded [where fl = ?fl0 and upload = ?file and q = 0 and ff = ?ff
          and req = "()" and cb = Pair, THEN conjunct1, THEN mp])
  then have r1: "wrappedFileFilter ?ff ?fl0 () ?file Pair
      = (?fl0, (Some (MulterError ''LIMIT_UNEXPECTED_FILE'' ''avatar''), None))"
    by (simp only: fn)
  have "minus_one (Num (of_int 2)) = Num (of_int (2 - 1))"
    using exact
    by (rule counters_guarded [where z = 2, THEN conjunct2, THEN conjunct2, THEN conjunct1,
          THEN mp])
  then have dec: "minus_one (Num 2) = Num 1"
    by (simp del: minus_one.simps)
  have "wrappedFileFilter ?ff ?fl2 () ?file Pair
      = (?fl2(fieldname ?file \<mapsto> minus_one (Num 2)), ?ff () ?file Pair)"
    using positive
    by (rule counters_guarded [where fl = ?fl2 and upload = ?file and q = 2 and ff = ?ff
          and req = "()" and cb = Pair, THEN conjunct2, THEN conjunct1, THEN mp])
  then have r2: "wrappedFileFilter ?ff ?fl2 () ?file Pair
      = (Map.empty(''avatar'' \<mapsto> Num 1), (None, Some True))"
    by (simp add: dec allowAll_def del: minus_one.simps)
  have "wrappedFileFilter ?ff ?flI () ?file Pair = (?flI, ?ff () ?file Pair)"
    using unbounded
    by (rule counters_guarded [where fl = ?flI and upload = ?file and ff = ?ff
          and req = "()" and cb = Pair,
          THEN conjunct2, THEN conjunct2, THEN conjunct2, THEN conjunct1, THEN mp])
  then have r3: "wrappedFileFilter ?ff ?flI () ?file Pair = (?flI, (None, Some True))"
    by (simp add: allowAll_def)
  have "\<exists>u. fst (process (wrappedFileFilter ?ff) (makeFilesLeft ?flds) (take 2 ?cs))
               (name (?flds ! 0)) = Some u \<and> number_le (Num 0) u"
    using declared
    by (rule counters_guarded [where flds = ?flds and ff = ?ff and m = 2 and cs = ?cs
          and j = 0 and k = 1,
          THEN conjunct2, THEN conjunct2, THEN conjunct2, THEN conjunct2, THEN mp])
  then obtain u
    where "fst (process (wrappedFileFilter ?ff) (makeFilesLeft ?flds) (take 2 ?cs))
               (name (?flds ! 0)) = Some u" and "number_le (Num 0) u"
    by (elim exE conjE)
  then have r4: "number_le (Num 0)
      (the (fst (process (wrappedFileFilter ?ff) (makeFilesLeft ?flds) (take 2 ?cs)) ''avatar''))"
    by (simp only: nm option.sel)
  from r1 r2 r3 r4 show ?thesis by (intro conjI)
qed

section \<open>Claims on the admission of file parts\<close>

text \<open>
  C1, as stated, fails in two ways. First, for a list that declares a name more than
  once: the first declaration of \<open>photos\<close> has \<open>maxCount\<close> 2, so the claim passes the
  first two files of \<open>photos\<close> on to the caller's filter; the later declaration leaves
  the count 1, and the second file is rejected with \<open>LIMIT_UNEXPECTED_FILE\<close>, where the
  caller's filter (here \<open>allowAll\<close>) would have accepted it. Second, for a count above
  \<open>2^53\<close>: with \<open>maxCount\<close> \<open>2^54\<close> the subtraction of line 68 rounds back to \<open>2^54\<close>, the
  count never gets smaller, and the file part that comes after \<open>2^54\<close> parts of the field
  is still passed on to the caller's filter.
\<close>

theorem per_field_budget_counterexample:
  "(maxCount ([\<lparr> name = ''photos'', maxCount = Some (Num 2) \<rparr>,
              \<lparr> name = ''photos'', maxCount = Some (Num 1) \<rparr>] ! 0) = Some (Num 2)
   \<and> snd (process (wrappedFileFilter allowAll)
            (makeFilesLeft [\<lparr> name = ''photos'', maxCount = Some (Num 2) \<rparr>,
                            \<lparr> name = ''photos'', maxCount = Some (Num 1) \<rparr>])
            [\<lparr> call_req = (),
               call_file = \<lparr> fieldname = ''photos'', originalname = ''a.png'',
                              encoding = ''7bit'', mimetype = ''image/png'' \<rparr>,
               call_cb = Pair \<rparr>,
             \<lparr> call_req = (),
               call_file = \<lparr> fieldname = ''photos'', originalname = ''b.png'',
                              encoding = ''7bit'', mimetype = ''image/png'' \<rparr>,
               call_cb = Pair \<rparr>]) ! 1
       = (Some (MulterError ''LIMIT_UNEXPECTED_FILE'' ''photos''), None)
   \<and> allowAll ()
         \<lparr> fieldname = ''photos'', originalname = ''b.png'',
           encoding = ''7bit'', mimetype = ''image/png'' \<rparr> Pair
       \<noteq> (Some (MulterError ''LIMIT_UNEXPECTED_FILE'' ''photos''), None))
   \<and> (maxCount \<lparr> name = ''photos'', maxCount = Some (Num (2 ^ 54)) \<rparr>
     = Some (Num (2 ^ 54))
   \<and> naming ''photos''
       (take (2 ^ 54)
          (replicate (2 ^ 54 + 1)
             \<lparr> call_req = (),
               call_file = \<lparr> fieldname = ''photos'', originalname = ''a.png'',
                              encoding = ''7bit'', mimetype = ''image/png'' \<rparr>,
               call_cb = Pair \<rparr>)) = 2 ^ 54
   \<and> snd (process (wrappedFileFilter allowAll)
            (makeFilesLeft [\<lparr> name = ''photos'', maxCount = Some (Num (2 ^ 54)) \<rparr>])
            (replicate (2 ^ 54 + 1)
               \<lparr> call_req = (),
                 call_file = \<lparr> fieldname = ''photos'', originalname = ''a.png'',
                                encoding = ''7bit'', mimetype = ''image/png'' \<rparr>,
                 call_cb = Pair \<rparr>)) ! (2 ^ 54)
       = (None, Some True))"
  (is "?A \<and> ?B")
proof -
  let ?c = "\<lparr> call_req = (),
               call_file = \<lparr> fieldname = ''photos'', originalname = ''a.png'',
                              encoding = ''7bit'', mimetype = ''image/png'' \<rparr>,
               call_cb = Pair :: error option \<Rightarrow> bool option \<Rightarrow> error option \<times> bool option \<rparr>"
  let ?cs = "replicate (2 ^ 54 + 1) ?c"
  let ?fl = "makeFilesLeft [\<lparr> name = ''photos'', maxCount = Some (Num (2 ^ 54)) \<rparr>]"
  have i: "2 ^ 54 < length ?cs" by simp
  have at: "?cs ! (2 ^ 54) = ?c" by (rule nth_replicate) simp
  have fl: "?fl (fieldname (call_file (?cs ! (2 ^ 54)))) = Some (Num (2 ^ 54))"
    unfolding at by (simp add: makeFilesLeft_def)
  have pos: "\<not> number_le (or_zero (Some (Num (2 ^ 54)))) (Num 0)" by simp
  have "snd (process (wrappedFileFilter allowAll) ?fl ?cs) ! (2 ^ 54)
      = allowAll (call_req (?cs ! (2 ^ 54))) (call_file (?cs ! (2 ^ 54))) (call_cb (?cs ! (2 ^ 54)))"
    using i fl minus_one_2_54 pos by (rule process_wrapped_stuck)
  then have passed: "snd (process (wrappedFileFilter allowAll) ?fl ?cs) ! (2 ^ 54) = (None, Some True)"
    unfolding at by (simp add: allowAll_def)
  have "take (2 ^ 54) ?cs = replicate (2 ^ 54) ?c" by simp
  then have "naming ''photos'' (take (2 ^ 54) ?cs) = 2 ^ 54"
    by (simp only: naming_def) simp
  with passed have above: "?B" by simp
  have redeclared: "?A"
    by (simp add: makeFilesLeft_def wrappedFileFilter_def allowAll_def to_double_0)
  from redeclared above show ?thesis ..
qed

text \<open>
  C1, amended. Let a field be declared with \<open>maxCount = k\<close>, \<open>k\<close> at most \<open>2^53\<close>, and
  not be declared again later in the list. For every sequence of file parts sent through
  the wrapped filter, a part that names this field is passed on to the caller's filter,
  with its own request, file and callback, exactly when fewer than \<open>k\<close> earlier parts
  name the field; every later part of the field, and every part that names a field that
  is not declared, is answered by calling its callback with \<open>LIMIT_UNEXPECTED_FILE\<close> and
  the field name, without a call of the caller's filter. When the callback is the one of
  the ingestion coordinator, the answer to such a part is the abort of the request with
  that error, and not the storing of the file: a rejected part does not reach the
  storage engine.
\<close>

theorem limit_enforced_per_field:
  "length (snd (process (wrappedFileFilter ff) (makeFilesLeft flds) cs)) = length cs
   \<and> (j < length flds \<and> maxCount (flds ! j) = Some (Num (of_nat k)) \<and> k \<le> 2 ^ 53
        \<and> name (flds ! j) \<notin> set (map name (drop (Suc j) flds))
        \<and> i < length cs \<and> fieldname (call_file (cs ! i)) = name (flds ! j)
      \<longrightarrow> snd (process (wrappedFileFilter ff) (makeFilesLeft flds) cs) ! i =
            (if naming (name (flds ! j)) (take i cs) < k
             then ff (call_req (cs ! i)) (call_file (cs ! i)) (call_cb (cs ! i))
             else call_cb (cs ! i)
                    (Some (MulterError ''LIMIT_UNEXPECTED_FILE'' (name (flds ! j)))) None))
   \<and> (i < length cs \<and> fieldname (call_file (cs ! i)) \<notin> set (map name flds)
      \<longrightarrow> snd (process (wrappedFileFilter ff) (makeFilesLeft flds) cs) ! i =
            call_cb (cs ! i)
              (Some (MulterError ''LIMIT_UNEXPECTED_FILE'' (fieldname (call_file (cs ! i))))) None)
   \<and> (i < length ds \<and> call_cb (ds ! i) = afterFilter (call_file (ds ! i))
        \<and> ((j < length flds \<and> maxCount (flds ! j) = Some (Num (of_nat k)) \<and> k \<le> 2 ^ 53
              \<and> name (flds ! j) \<notin> set (map name (drop (Suc j) flds))
              \<and> fieldname (call_file (ds ! i)) = name (flds ! j)
              \<and> k \<le> naming (name (flds ! j)) (take i ds))
            \<or> fieldname (call_file (ds ! i)) \<notin> set (map name flds))
      \<longrightarrow> snd (process (wrappedFileFilter gg) (makeFilesLeft flds) ds) ! i =
            Abort (MulterError ''LIMIT_UNEXPECTED_FILE'' (fieldname (call_file (ds ! i))))
          \<and> snd (process (wrappedFileFilter gg) (makeFilesLeft flds) ds) ! i
              \<noteq> Store (call_file (ds ! i)))"
proof (intro conjI impI)
    show "length (snd (process (wrappedFileFilter ff) (makeFilesLeft flds) cs)) = length cs"
      by (rule length_process)
  next
    assume "j < length flds \<and> maxCount (flds ! j) = Some (Num (of_nat k)) \<and> k \<le> 2 ^ 53
        \<and> name (flds ! j) \<notin> set (map name (drop (Suc j) flds))
        \<and> i < length cs \<and> fieldname (call_file (cs ! i)) = name (flds ! j)"
    then show "snd (process (wrappedFileFilter ff) (makeFilesLeft flds) cs) ! i =
            (if naming (name (flds ! j)) (take i cs) < k
             then ff (call_req (cs ! i)) (call_file (cs ! i)) (call_cb (cs ! i))
             else call_cb (cs ! i)
                    (Some (MulterError ''LIMIT_UNEXPECTED_FILE'' (name (flds ! j)))) None)"
      using process_declared_nth [where cs = cs and ff = ff] by blast
  next
    assume "i < length cs \<and> fieldname (call_file (cs ! i)) \<notin> set (map name flds)"
    then show "snd (process (wrappedFileFilter ff) (makeFilesLeft flds) cs) ! i =
            call_cb (cs ! i)
              (Some (MulterError ''LIMIT_UNEXPECTED_FILE'' (fieldname (call_file (cs ! i))))) None"
      using process_undeclared_nth [where cs = cs and ff = ff] by blast
  next
    assume h: "i < length ds \<and> call_cb (ds ! i) = afterFilter (call_file (ds ! i))
        \<and> ((j < length flds \<and> maxCount (flds ! j) = Some (Num (of_nat k)) \<and> k \<le> 2 ^ 53
              \<and> name (flds ! j) \<notin> set (map name (drop (Suc j) flds))
              \<and> fieldname (call_file (ds ! i)) = name (flds ! j)
              \<and> k \<le> naming (name (flds ! j)) (take i ds))
            \<or> fieldname (call_file (ds ! i)) \<notin> set (map name flds))"
    then have "snd (process (wrappedFileFilter gg) (makeFilesLeft flds) ds) ! i =
        call_cb (ds ! i)
          (Some (MulterError ''LIMIT_UNEXPECTED_FILE'' (fieldname (call_file (ds ! i))))) None"
      using process_declared_nth [where cs = ds and ff = gg and flds = flds and j = j and k = k and i = i]
        process_undeclared_nth [where cs = ds and ff = gg and flds = flds and i = i] by auto
    with h show abort: "snd (process (wrappedFileFilter gg) (makeFilesLeft flds) ds) ! i =
            Abort (MulterError ''LIMIT_UNEXPECTED_FILE'' (fieldname (call_file (ds ! i))))"
      by (simp add: afterFilter_def)
    show "snd (process (wrappedFileFilter gg) (makeFilesLeft flds) ds) ! i
              \<noteq> Store (call_file (ds ! i))"
      unfolding abort by simp
  qed

theorem limit_enforced_per_field_witness:
  "snd (process (wrappedFileFilter allowAll)
          (makeFilesLeft [\<lparr> name = ''photos'', maxCount = Some (Num 2) \<rparr>])
          [\<lparr> call_req = (),
             call_file = \<lparr> fieldname = ''photos'', originalname = ''a.png'',
                            encoding = ''7bit'', mimetype = ''image/png'' \<rparr>,
             call_cb = Pair \<rparr>,
           \<lparr> call_req = (),
             call_file = \<lparr> fieldname = ''photos'', originalname = ''b.png'',
                            encoding = ''7bit'', mimetype = ''image/png'' \<rparr>,
             call_cb = Pair \<rparr>,
           \<lparr> call_req = (),
             call_file = \<lparr> fieldname = ''cover'', originalname = ''c.png'',
                            encoding = ''7bit'', mimetype = ''image/png'' \<rparr>,
             call_cb = Pair \<rparr>,
           \<lparr> call_req = (),
             call_file = \<lparr> fieldname = ''photos'', originalname = ''d.png'',
                            encoding = ''7bit'', mimetype = ''image/png'' \<rparr>,
             call_cb = Pair \<rparr>])
   = [(None, Some True),
      (None, Some True),
      (Some (MulterError ''LIMIT_UNEXPECTED_FILE'' ''cover''), None),
      (Some (MulterError ''LIMIT_UNEXPECTED_FILE'' ''photos''), None)]
   \<and> snd (process (wrappedFileFilter allowAll)
          (makeFilesLeft [\<lparr> name = ''photos'', maxCount = Some (Num 1) \<rparr>])
          [\<lparr> call_req = (),
             call_file = \<lparr> fieldname = ''photos'', originalname = ''a.png'',
                            encoding = ''7bit'', mimetype = ''image/png'' \<rparr>,
             call_cb = afterFilter \<lparr> fieldname = ''photos'', originalname = ''a.png'',
                            encoding = ''7bit'', mimetype = ''image/png'' \<rparr> \<rparr>,
           \<lparr> call_req = (),
             call_file = \<lparr> fieldname = ''photos'', originalname = ''b.png'',
                            encoding = ''7bit'', mimetype = ''image/png'' \<rparr>,
             call_cb = afterFilter \<lparr> fieldname = ''photos'', originalname = ''b.png'',
                            encoding = ''7bit'', mimetype = ''image/png'' \<rparr> \<rparr>]) ! 1
     = Abort (MulterError ''LIMIT_UNEXPECTED_FILE'' ''photos'')"
proof -
  let ?ff = "allowAll :: (unit, error option \<times> bool option) FileFilter"
  let ?gg = "allowAll :: (unit, ingest) FileFilter"
  let ?flds = "[\<lparr> name = ''photos'', maxCount = Some (Num 2) \<rparr>]"
  let ?flds1 = "[\<lparr> name = ''photos'', maxCount = Some (Num 1) \<rparr>]"
  let ?cs = "[\<lparr> call_req = (),
                 call_file = \<lparr> fieldname = ''photos'', originalname = ''a.png'',
                                encoding = ''7bit'', mimetype = ''image/png'' \<rparr>,
                 call_cb = Pair \<rparr>,
               \<lparr> call_req = (),
                 call_file = \<lparr> fieldname = ''photos'', originalname = ''b.png'',
                                encoding = ''7bit'', mimetype = ''image/png'' \<rparr>,
                 call_cb = Pair \<rparr>,
               \<lparr> call_req = (),
                 call_file = \<lparr> fieldname = ''cover'', originalname = ''c.png'',
                                encoding = ''7bit'', mimetype = ''image/png'' \<rparr>,
                 call_cb = Pair \<rparr>,
               \<lparr> call_req = (),
                 call_file = \<lparr> fieldname = ''photos'', originalname = ''d.png'',
                                encoding = ''7bit'', mimetype = ''image/png'' \<rparr>,
                 call_cb = Pair \<rparr>]"
  let ?ds = "[\<lparr> call_req = (),
             call_file = \<lparr> fieldname = ''photos'', originalname = ''a.png'',
                            encoding = ''7bit'', mimetype = ''image/png'' \<rparr>,
             call_cb = afterFilter \<lparr> fieldname = ''photos'', originalname = ''a.png'',
                            encoding = ''7bit'', mimetype = ''image/png'' \<rparr> \<rparr>,
           \<lparr> call_req = (),
             call_file = \<lparr> fieldname = ''photos'', originalname = ''b.png'',
                            encoding = ''7bit'', mimetype = ''image/png'' \<rparr>,
             call_cb = afterFilter \<lparr> fieldname = ''photos'', originalname = ''b.png'',
                            encoding = ''7bit'', mimetype = ''image/png'' \<rparr> \<rparr>]"
  let ?outs = "snd (process (wrappedFileFilter ?ff) (makeFilesLeft ?flds) ?cs)"
  have declared: "0 < length ?flds \<and> maxCount (?flds ! 0) = Some (Num (of_nat 2))
      \<and> (2::nat) \<le> 2 ^ 53
      \<and> name (?flds ! 0) \<notin> set (map name (drop (Suc 0) ?flds))"
    by simp
  have at0: "0 < length ?cs \<and> fieldname (call_file (?cs ! 0)) = name (?flds ! 0)" by simp
  have at1: "1 < length ?cs \<and> fieldname (call_file (?cs ! 1)) = name (?flds ! 0)" by simp
  have at2: "2 < length ?cs \<and> fieldname (call_file (?cs ! 2)) \<notin> set (map name ?flds)" by simp
  have at3: "3 < length ?cs \<and> fieldname (call_file (?cs ! 3)) = name (?flds ! 0)" by simp
  have len: "length ?outs = 4"
    using limit_enforced_per_field [where ff = ?ff and flds = ?flds and cs = ?cs, THEN conjunct1]
    by simp
  from limit_enforced_per_field [where ff = ?ff and flds = ?flds and cs = ?cs
      and j = 0 and k = 2 and i = 0] declared at0
  have "?outs ! 0 =
      (if naming (name (?flds ! 0)) (take 0 ?cs) < 2
       then ?ff (call_req (?cs ! 0)) (call_file (?cs ! 0)) (call_cb (?cs ! 0))
       else call_cb (?cs ! 0) (Some (MulterError ''LIMIT_UNEXPECTED_FILE'' (name (?flds ! 0)))) None)"
    by blast
  then have o0: "?outs ! 0 = (None, Some True)"
    by (simp add: naming_def allowAll_def)
  from limit_enforced_per_field [where ff = ?ff and flds = ?flds and cs = ?cs
      and j = 0 and k = 2 and i = 1] declared at1
  have "?outs ! 1 =
      (if naming (name (?flds ! 0)) (take 1 ?cs) < 2
       then ?ff (call_req (?cs ! 1)) (call_file (?cs ! 1)) (call_cb (?cs ! 1))
       else call_cb (?cs ! 1) (Some (MulterError ''LIMIT_UNEXPECTED_FILE'' (name (?flds ! 0)))) None)"
    by blast
  then have o1: "?outs ! 1 = (None, Some True)"
    by (simp add: naming_def allowAll_def)
  from limit_enforced_per_field [where ff = ?ff and flds = ?flds and cs = ?cs and i = 2] at2
  have "?outs ! 2 =
      call_cb (?cs ! 2)
        (Some (MulterError ''LIMIT_UNEXPECTED_FILE'' (fieldname (call_file (?cs ! 2))))) None"
    by blast
  then have o2: "?outs ! 2 = (Some (MulterError ''LIMIT_UNEXPECTED_FILE'' ''cover''), None)"
    by simp
  from limit_enforced_per_field [where ff = ?ff and flds = ?flds and cs = ?cs
      and j = 0 and k = 2 and i = 3] declared at3
  have "?outs ! 3 =
      (if naming (name (?flds ! 0)) (take 3 ?cs) < 2
       then ?ff (call_req (?cs ! 3)) (call_file (?cs ! 3)) (call_cb (?cs ! 3))
       else call_cb (?cs ! 3) (Some (MulterError ''LIMIT_UNEXPECTED_FILE'' (name (?flds ! 0)))) None)"
    by blast
  then have o3: "?outs ! 3 = (Some (MulterError ''LIMIT_UNEXPECTED_FILE'' ''photos''), None)"
    by (simp add: naming_def)
  have "?outs = [?outs ! 0, ?outs ! 1, ?outs ! 2, ?outs ! 3]"
    using len by (intro nth_equalityI) (auto simp: nth_Cons' less_Suc_eq numeral_eq_Suc)
  then have answers: "?outs = [(None, Some True), (None, Some True),
      (Some (MulterError ''LIMIT_UNEXPECTED_FILE'' ''cover''), None),
      (Some (MulterError ''LIMIT_UNEXPECTED_FILE'' ''photos''), None)]"
    using o0 o1 o2 o3 by simp
  have coordinator: "1 < length ?ds \<and> call_cb (?ds ! 1) = afterFilter (call_file (?ds ! 1))
      \<and> ((0 < length ?flds1 \<and> maxCount (?flds1 ! 0) = Some (Num (of_nat 1)) \<and> (1::nat) \<le> 2 ^ 53
            \<and> name (?flds1 ! 0) \<notin> set (map name (drop (Suc 0) ?flds1))
            \<and> fieldname (call_file (?ds ! 1)) = name (?flds1 ! 0)
            \<and> 1 \<le> naming (name (?flds1 ! 0)) (take 1 ?ds))
          \<or> fieldname (call_file (?ds ! 1)) \<notin> set (map name ?flds1))"
    by (simp add: naming_def)
  from limit_enforced_per_field [where gg = ?gg and flds = ?flds1 and ds = ?ds
      and j = 0 and k = 1 and i = 1] coordinator
  have "snd (process (wrappedFileFilter ?gg) (makeFilesLeft ?flds1) ?ds) ! 1 =
      Abort (MulterError ''LIMIT_UNEXPECTED_FILE'' (fieldname (call_file (?ds ! 1))))"
    by blast
  then have "snd (process (wrappedFileFilter ?gg) (makeFilesLeft ?flds1) ?ds) ! 1 =
      Abort (MulterError ''LIMIT_UNEXPECTED_FILE'' ''photos'')"
    by simp
  with answers show ?thesis by simp
qed

text \<open>
  C5. \<open>single(name)\<close> hands \<open>makeBeforeHandler\<close> the setup closure of the one
  declaration \<open>{ name, maxCount: 1 }\<close> with the strategy \<open>VALUE\<close>. In every request it
  handles, a file part of that field that comes after another one of that field is
  rejected with \<open>LIMIT_UNEXPECTED_FILE\<close> without a call of the caller's filter; the first
  one goes to the caller's filter.
\<close>

theorem single_admits_one_file:
  "single makeBeforeHandler this nm =
     makeBeforeHandler (setup_closure this [\<lparr> name = nm, maxCount = Some (Num 1) \<rparr>] VALUE)
   \<and> fileStrategy (setup_closure this [\<lparr> name = nm, maxCount = Some (Num 1) \<rparr>] VALUE ()) = VALUE
   \<and> (i < length cs \<and> fieldname (call_file (cs ! i)) = nm \<and> 0 < naming nm (take i cs)
      \<longrightarrow> request (setup_closure this [\<lparr> name = nm, maxCount = Some (Num 1) \<rparr>] VALUE) cs ! i =
            call_cb (cs ! i) (Some (MulterError ''LIMIT_UNEXPECTED_FILE'' nm)) None)
   \<and> (i < length cs \<and> fieldname (call_file (cs ! i)) = nm \<and> naming nm (take i cs) = 0
      \<longrightarrow> request (setup_closure this [\<lparr> name = nm, maxCount = Some (Num 1) \<rparr>] VALUE) cs ! i =
            Multer.fileFilter this (call_req (cs ! i)) (call_file (cs ! i)) (call_cb (cs ! i)))"
proof -
  let ?flds = "[\<lparr> name = nm, maxCount = Some (Num 1) \<rparr>]"
  have init: "makeFilesLeft ?flds nm = Some (Num 1)"
    by (simp add: makeFilesLeft_def)
  have "request (setup_closure this ?flds VALUE) cs ! i =
      (if number_le (or_zero (makeFilesLeft ?flds nm)) (Num (of_nat (naming nm (take i cs))))
       then call_cb (cs ! i) (Some (MulterError ''LIMIT_UNEXPECTED_FILE'' nm)) None
       else Multer.fileFilter this (call_req (cs ! i)) (call_file (cs ! i)) (call_cb (cs ! i)))"
    if "i < length cs" "fieldname (call_file (cs ! i)) = nm"
    using that init process_wrapped_nth [of i cs "makeFilesLeft ?flds" "Multer.fileFilter this"]
    by (simp add: request_def setup_closure_def)
  then show ?thesis
    by (auto simp: init single_def Multer_makeBeforeHandler_def setup_closure_def)
qed

theorem single_admits_one_file_witness:
  "request
     (setup_closure
        (new_Multer (emptyOptions :: (unit, error option \<times> bool option, unit, unit) Options))
        [\<lparr> name = ''avatar'', maxCount = Some (Num 1) \<rparr>] VALUE)
     [\<lparr> call_req = (),
        call_file = \<lparr> fieldname = ''avatar'', originalname = ''a.png'',
                       encoding = ''7bit'', mimetype = ''image/png'' \<rparr>,
        call_cb = Pair \<rparr>,
      \<lparr> call_req = (),
        call_file = \<lparr> fieldname = ''avatar'', originalname = ''b.png'',
                       encoding = ''7bit'', mimetype = ''image/png'' \<rparr>,
        call_cb = Pair \<rparr>] ! 1
   = (Some (MulterError ''LIMIT_UNEXPECTED_FILE'' ''avatar''), None)
   \<and> request
     (setup_closure
        (new_Multer (emptyOptions :: (unit, error option \<times> bool option, unit, unit) Options))
        [\<lparr> name = ''avatar'', maxCount = Some (Num 1) \<rparr>] VALUE)
     [\<lparr> call_req = (),
        call_file = \<lparr> fieldname = ''avatar'', originalname = ''a.png'',
                       encoding = ''7bit'', mimetype = ''image/png'' \<rparr>,
        call_cb = Pair \<rparr>,
      \<lparr> call_req = (),
        call_file = \<lparr> fieldname = ''avatar'', originalname = ''b.png'',
                       encoding = ''7bit'', mimetype = ''image/png'' \<rparr>,
        call_cb = Pair \<rparr>] ! 0
   = (None, Some True)"
proof -
  let ?m = "new_Multer (emptyOptions :: (unit, error option \<times> bool option, unit, unit) Options)"
  let ?cs = "[\<lparr> call_req = (),
                 call_file = \<lparr> fieldname = ''avatar'', originalname = ''a.png'',
                                encoding = ''7bit'', mimetype = ''image/png'' \<rparr>,
                 call_cb = Pair \<rparr>,
               \<lparr> call_req = (),
                 call_file = \<lparr> fieldname = ''avatar'', originalname = ''b.png'',
                                encoding = ''7bit'', mimetype = ''image/png'' \<rparr>,
                 call_cb = Pair \<rparr>]"
  have second: "1 < length ?cs \<and> fieldname (call_file (?cs ! 1)) = ''avatar''
      \<and> 0 < naming ''avatar'' (take 1 ?cs)"
    by (simp add: naming_def)
  have first: "0 < length ?cs \<and> fieldname (call_file (?cs ! 0)) = ''avatar''
      \<and> naming ''avatar'' (take 0 ?cs) = 0"
    by (simp add: naming_def)
  from single_admits_one_file [where this = ?m and nm = "''avatar''" and cs = ?cs and i = 1] second
  have "request (setup_closure ?m [\<lparr> name = ''avatar'', maxCount = Some (Num 1) \<rparr>] VALUE) ?cs ! 1
      = call_cb (?cs ! 1) (Some (MulterError ''LIMIT_UNEXPECTED_FILE'' ''avatar'')) None"
    by blast
  moreover
  from single_admits_one_file [where this = ?m and nm = "''avatar''" and cs = ?cs and i = 0] first
  have "request (setup_closure ?m [\<lparr> name = ''avatar'', maxCount = Some (Num 1) \<rparr>] VALUE) ?cs ! 0
      = Multer.fileFilter ?m (call_req (?cs ! 0)) (call_file (?cs ! 0)) (call_cb (?cs ! 0))"
    by blast
  ultimately show ?thesis
    by (simp add: new_Multer_def emptyOptions_def allowAll_def)
qed

text \<open>
  C6. \<open>none()\<close> hands \<open>makeBeforeHandler\<close> the setup closure of no declaration with the
  strategy \<open>NONE\<close>. In every request it handles, every file part, whatever field it
  names, is rejected with \<open>LIMIT_UNEXPECTED_FILE\<close> and that field name.
\<close>

theorem none_rejects_every_file:
  "none makeBeforeHandler this = makeBeforeHandler (setup_closure this [] NONE)
   \<and> fileStrategy (setup_closure this [] NONE ()) = NONE
   \<and> request (setup_closure this [] NONE) cs =
       map (\<lambda>c. call_cb c
                  (Some (MulterError ''LIMIT_UNEXPECTED_FILE'' (fieldname (call_file c)))) None) cs"
proof -
  have "request (setup_closure this [] NONE) cs ! i =
       map (\<lambda>c. call_cb c
                  (Some (MulterError ''LIMIT_UNEXPECTED_FILE'' (fieldname (call_file c)))) None) cs ! i"
    if "i < length cs" for i
    using that process_wrapped_nth [of i cs "makeFilesLeft []" "Multer.fileFilter this"]
    by (simp add: request_def setup_closure_def makeFilesLeft_def)
  then have "request (setup_closure this [] NONE) cs =
       map (\<lambda>c. call_cb c
                  (Some (MulterError ''LIMIT_UNEXPECTED_FILE'' (fieldname (call_file c)))) None) cs"
    by (intro nth_equalityI) (simp_all add: request_def length_process)
  then show ?thesis
    by (simp add: none_def Multer_makeBeforeHandler_def setup_closure_def)
qed

text \<open>
  C7. \<open>any()\<close> uses the strategy \<open>ARRAY\<close> and the caller's filter itself. In every
  request it handles, the answer to every file part, for every field name and every
  number of files, is the answer of the caller's filter: no limit check rejects a file.
\<close>

theorem any_has_no_limit:
  "any makeBeforeHandler this = makeBeforeHandler (any_setup this)
   \<and> fileStrategy (any_setup this ()) = ARRAY
   \<and> request (any_setup this) cs =
       map (\<lambda>c. Multer.fileFilter this (call_req c) (call_file c) (call_cb c)) cs"
  by (simp add: any_def any_setup_def request_def process_any)

section \<open>Claims on concurrent requests\<close>

text \<open>
  C9. The limit state belongs to one request. Every invocation of the setup closure
  makes its own \<open>filesLeft\<close> object (line 49 is inside the closure), and the filter it
  returns works on that object only. Take any events of one middleware from its creation
  on: any events \<open>before\<close>, then the start of a request, then any events \<open>after\<close>, in
  which file parts of this and of other requests interleave and other requests start.
  The answers given to the file parts of this request are those of the request handled
  alone on its own parts: they do not depend on what is admitted or rejected in any
  other request.
\<close>

theorem limit_state_request_scoped:
  "answers_of
     (length (filters (fst (serve (invoke_setup this flds strategy) new_server before))))
     (snd (serve (invoke_setup this flds strategy) new_server (before @ NewRequest # after)))
   = request (setup_closure this flds strategy)
       (parts_of
          (length (filters (fst (serve (invoke_setup this flds strategy) new_server before))))
          after)"
proof -
  let ?S = "invoke_setup this flds strategy"
  let ?ff = "Multer.fileFilter this"
  let ?sv1 = "fst (serve ?S new_server before)"
  let ?r = "length (filters ?sv1)"
  let ?sv2 = "\<lparr> heap_of = captured (?S (heap_of ?sv1)),
      filters = filters ?sv1 @ [SetupResult.fileFilter (?S (heap_of ?sv1))] \<rparr>"
  have inv0: "filters new_server =
      map (wrappedFileFilter_at ?ff) [0..<next_ref (heap_of new_server)]"
    by (simp add: new_server_def)
  have inv1: "filters ?sv1 = map (wrappedFileFilter_at ?ff) [0..<next_ref (heap_of ?sv1)]"
    using inv0 by (rule serve_keeps_filters)
  then have r: "?r = next_ref (heap_of ?sv1)" by simp
  have inv2: "filters ?sv2 = map (wrappedFileFilter_at ?ff) [0..<next_ref (heap_of ?sv2)]"
    using inv1 by (simp add: captured_invoke_setup fileFilter_invoke_setup)
  have r2: "?r < next_ref (heap_of ?sv2)"
    using r by (simp add: captured_invoke_setup)
  have fresh: "deref (heap_of ?sv2) ?r = makeFilesLeft flds"
    using r by (simp add: captured_invoke_setup deref_def)
  have quiet: "answers_of ?r (snd (serve ?S new_server before)) = []"
    by (rule serve_no_answers) simp
  have own: "answers_of ?r (snd (serve ?S ?sv2 after))
      = snd (process (wrappedFileFilter ?ff) (makeFilesLeft flds) (parts_of ?r after))"
    using serve_answers [OF inv2 r2, of flds strategy after] fresh by simp
  have "snd (serve ?S new_server (before @ NewRequest # after))
      = snd (serve ?S new_server before) @ snd (serve ?S ?sv2 after)"
    by (simp add: serve_append)
  then show ?thesis using quiet own
    by (simp add: answers_of_append request_def setup_closure_def)
qed

theorem limit_state_request_scoped_witness:
  "answers_of 0
     (snd (serve
             (invoke_setup
                (new_Multer (emptyOptions :: (unit, error option \<times> bool option, unit, unit) Options))
                [\<lparr> name = ''avatar'', maxCount = Some (Num 1) \<rparr>] VALUE)
             new_server
             [NewRequest,
              NewRequest,
              FilePart 0 \<lparr> call_req = (),
                           call_file = \<lparr> fieldname = ''avatar'', originalname = ''a.png'',
                                          encoding = ''7bit'', mimetype = ''image/png'' \<rparr>,
                           call_cb = Pair \<rparr>,
              FilePart 1 \<lparr> call_req = (),
                           call_file = \<lparr> fieldname = ''avatar'', originalname = ''b.png'',
                                          encoding = ''7bit'', mimetype = ''image/png'' \<rparr>,
                           call_cb = Pair \<rparr>,
              FilePart 0 \<lparr> call_req = (),
                           call_file = \<lparr> fieldname = ''avatar'', originalname = ''c.png'',
                                          encoding = ''7bit'', mimetype = ''image/png'' \<rparr>,
                           call_cb = Pair \<rparr>]))
   = [(None, Some True), (Some (MulterError ''LIMIT_UNEXPECTED_FILE'' ''avatar''), None)]
   \<and> answers_of 1
     (snd (serve
             (invoke_setup
                (new_Multer (emptyOptions :: (unit, error option \<times> bool option, unit, unit) Options))
                [\<lparr> name = ''avatar'', maxCount = Some (Num 1) \<rparr>] VALUE)
             new_server
             [NewRequest,
              NewRequest,
              FilePart 0 \<lparr> call_req = (),
                           call_file = \<lparr> fieldname = ''avatar'', originalname = ''a.png'',
                                          encoding = ''7bit'', mimetype = ''image/png'' \<rparr>,
                           call_cb = Pair \<rparr>,
              FilePart 1 \<lparr> call_req = (),
                           call_file = \<lparr> fieldname = ''avatar'', originalname = ''b.png'',
                                          encoding = ''7bit'', mimetype = ''image/png'' \<rparr>,
                           call_cb = Pair \<rparr>,
              FilePart 0 \<lparr> call_req = (),
                           call_file = \<lparr> fieldname = ''avatar'', originalname = ''c.png'',
                                          encoding = ''7bit'', mimetype = ''image/png'' \<rparr>,
                           call_cb = Pair \<rparr>]))
   = [(None, Some True)]"
proof -
  let ?m = "new_Multer (emptyOptions :: (unit, error option \<times> bool option, unit, unit) Options)"
  let ?flds = "[\<lparr> name = ''avatar'', maxCount = Some (Num 1) \<rparr>]"
  let ?S = "invoke_setup ?m ?flds VALUE"
  let ?a = "FilePart 0 \<lparr> call_req = (),
                           call_file = \<lparr> fieldname = ''avatar'', originalname = ''a.png'',
                                          encoding = ''7bit'', mimetype = ''image/png'' \<rparr>,
                           call_cb = Pair \<rparr>"
  let ?b = "FilePart 1 \<lparr> call_req = (),
                           call_file = \<lparr> fieldname = ''avatar'', originalname = ''b.png'',
                                          encoding = ''7bit'', mimetype = ''image/png'' \<rparr>,
                           call_cb = Pair \<rparr>"
  let ?c = "FilePart 0 \<lparr> call_req = (),
                           call_file = \<lparr> fieldname = ''avatar'', originalname = ''c.png'',
                                          encoding = ''7bit'', mimetype = ''image/png'' \<rparr>,
                           call_cb = Pair \<rparr>"
  have first: "length (filters (fst (serve ?S new_server []))) = 0"
    by (simp add: new_server_def)
  have second: "length (filters (fst (serve ?S new_server [NewRequest]))) = 1"
    by (simp add: new_server_def)
  have alone2: "request (setup_closure ?m ?flds VALUE) (parts_of 0 [NewRequest, ?a, ?b, ?c])
      = [(None, Some True), (Some (MulterError ''LIMIT_UNEXPECTED_FILE'' ''avatar''), None)]"
    by (simp add: request_def setup_closure_def makeFilesLeft_def wrappedFileFilter_def
          new_Multer_def emptyOptions_def allowAll_def to_double_0)
  have alone1: "request (setup_closure ?m ?flds VALUE) (parts_of 1 [?a, ?b, ?c])
      = [(None, Some True)]"
    by (simp add: request_def setup_closure_def makeFilesLeft_def wrappedFileFilter_def
          new_Multer_def emptyOptions_def allowAll_def to_double_0)
  from limit_state_request_scoped [where this = ?m and flds = ?flds and strategy = VALUE
      and before = "[]" and after = "[NewRequest, ?a, ?b, ?c]"]
  have r0: "answers_of 0 (snd (serve ?S new_server [NewRequest, NewRequest, ?a, ?b, ?c]))
      = [(None, Some True), (Some (MulterError ''LIMIT_UNEXPECTED_FILE'' ''avatar''), None)]"
    unfolding first alone2 by simp
  from limit_state_request_scoped [where this = ?m and flds = ?flds and strategy = VALUE
      and before = "[NewRequest]" and after = "[?a, ?b, ?c]"]
  have r1: "answers_of 1 (snd (serve ?S new_server [NewRequest, NewRequest, ?a, ?b, ?c]))
      = [(None, Some True)]"
    unfolding second alone1 by simp
  from r0 r1 show ?thesis ..
qed

end
